theory Spec2Isabelle
  imports Complex_Main
begin

section \<open>Data model of the car device (drivers/generic_device.js)\<close>

text \<open>
  The values the platform stores for a capability: JavaScript primitives. \<open>JNaN\<close> is the
  number NaN. The strict comparison \<^verbatim>\<open>!==\<close> of the source is structural inequality, except
  that NaN differs from every value, itself included.
\<close>

datatype jsval = JNull | JBool bool | JNum real | JNaN | JStr string

definition strict_ne :: "jsval \<Rightarrow> jsval \<Rightarrow> bool" where
  "strict_ne v w = (v = JNaN \<or> w = JNaN \<or> v \<noteq> w)"

datatype error = NotLoggedIn | ApiError string | TypeError string

text \<open>The unparsed vendor status, restricted to the fields that the device reads.\<close>

record ev_status =
  batteryPlugin :: int
  batteryCharge :: bool
  batteryStatus :: real
  drvDistance :: "real list"
    \<comment> \<open>one entry per element of \<^verbatim>\<open>drvDistance\<close>: its \<^verbatim>\<open>rangeByFuel.totalAvailableRange.value\<close>\<close>

record vehicle_status =
  engine :: bool
  doorLock :: bool
  airCtrlOn :: bool
  defrost :: bool
  trunkOpen :: bool
  hoodOpen :: bool
  doorOpen :: "(string \<times> int) list"
    \<comment> \<open>the object \<^verbatim>\<open>doorOpen\<close>: its keys in order, each with its 0/1 flag\<close>
  airTemp :: string
  tirePressureLampAll :: int
  batSoc :: real
  sleepModeCheck :: bool
  time :: string
  evStatus :: ev_status

record car_location =
  latitude :: real
  longitude :: real
  speed :: real
    \<comment> \<open>\<^verbatim>\<open>location.speed.value\<close>\<close>

record odometer_reading =
  odo_value :: real
  odo_unit :: int

record vehicle_config =
  config_vin :: string
  nickname :: string

record vehicle =
  vehicleConfig :: vehicle_config

record settings =
  vin :: string
  pollInterval :: int
  pollIntervalForced :: int
  batteryAlarmLevel :: real
  EVbatteryAlarmLevel :: real
  abrp_user_token :: string
  lat :: real
  lon :: real

text \<open>
  What the device hands to its collaborators and to the platform, in the order of the
  calls. Plain \<^verbatim>\<open>this.log\<close> lines are not recorded; \<^verbatim>\<open>this.error\<close> reports are.
\<close>

datatype event =
    Login
  | StatusCall bool
  | LocationCall
  | OdometerCall
  | AbrpSend real real real real bool
  | GeoLookup car_location
  | SetCapabilityValue string jsval
  | TriggerCard string
  | PollError error
  | ErrorLog error
  | ClearInterval
  | SetInterval int
  | SetTimeoutInit int

type_synonym capabilities = "string \<rightharpoonup> jsval"

text \<open>
  The fields of \<^verbatim>\<open>CarDevice\<close>. A field that the source leaves \<^verbatim>\<open>undefined\<close> until
  its first assignment is an option. \<open>capabilities\<close> is the platform's store for this
  device: the domain is the set of capabilities the device has, and a capability that was
  never written holds null.
\<close>

record device =
  settings :: settings
  vehicle :: "vehicle option"
  busy :: bool
  watchDogCounter :: int
  lastStatus :: "vehicle_status option"
  lastLocation :: "car_location option"
  lastOdometer :: "odometer_reading option"
  lastRefresh :: "int option"
  carLastActive :: "int option"
  liveData :: bool
  capabilities :: capabilities

text \<open>
  The answers of the collaborators during one poll cycle: the vehicle API client, the
  telemetry forwarder, the reverse geocoder, the GeoPoint library, the temperature
  decoder and the clock (\<^verbatim>\<open>Date.now()\<close> is read at three places). An awaited call that
  rejects is \<open>Inl\<close>; one that resolves yields an object of the expected shape. The
  distance of the GeoPoint library is a number or NaN (\<open>None\<close>), which it yields when
  rounding puts the cosine of the angle between the two points above 1, as it can for
  two equal points.
\<close>

record env =
  now_interval :: int
  now_active :: int
  now_refresh :: int
  login :: "error option"
  status_cached :: "error + vehicle_status"
  status_refresh :: "error + vehicle_status"
  location_res :: "error + car_location"
  odometer_res :: "error + odometer_reading"
  abrp_send :: "error option"
  getCarLocString :: "car_location \<Rightarrow> error + string"
  distanceTo :: "real \<Rightarrow> real \<Rightarrow> real \<Rightarrow> real \<Rightarrow> error + real option"
  getTempFromCode :: "string \<Rightarrow> jsval"

record info =
  info_status :: "vehicle_status option"
  info_location :: "car_location option"
  info_odometer :: "odometer_reading option"

section \<open>Capability sink wrapper\<close>

definition hasCapability :: "capabilities \<Rightarrow> string \<Rightarrow> bool" where
  "hasCapability cs c = (cs c \<noteq> None)"

text \<open>Reading a capability the device does not have is taken to yield null.\<close>

definition getCapabilityValue :: "capabilities \<Rightarrow> string \<Rightarrow> jsval" where
  "getCapabilityValue cs c = (case cs c of None \<Rightarrow> JNull | Some v \<Rightarrow> v)"

text \<open>
  \<^verbatim>\<open>setCapability\<close>: the platform's \<^verbatim>\<open>setCapabilityValue\<close> is called only for a capability
  the device has and only with a value that differs from the stored one. The platform
  stores the value it is given.
\<close>

definition setCapability :: "string \<Rightarrow> jsval \<Rightarrow> capabilities \<Rightarrow> capabilities \<times> event list" where
  "setCapability capability v cs =
     (if hasCapability cs capability then
        (if strict_ne v (getCapabilityValue cs capability)
         then (cs(capability \<mapsto> v), [SetCapabilityValue capability v])
         else (cs, []))
      else (cs, []))"

fun setCapabilities :: "(string \<times> jsval) list \<Rightarrow> capabilities \<Rightarrow> capabilities \<times> event list" where
  "setCapabilities [] cs = (cs, [])"
| "setCapabilities ((c, v) # ws) cs =
     (let (cs1, e1) = setCapability c v cs;
          (cs2, e2) = setCapabilities ws cs1
      in (cs2, e1 @ e2))"

text \<open>A call of \<^verbatim>\<open>setCapability\<close> reaches the platform: the capability exists and the value differs.\<close>

definition needs_write :: "capabilities \<Rightarrow> string \<times> jsval \<Rightarrow> bool" where
  "needs_write cs w =
     (hasCapability cs (fst w) \<and> strict_ne (snd w) (getCapabilityValue cs (fst w)))"

section \<open>Derived properties\<close>

text \<open>\<^verbatim>\<open>!doorOpen[door]\<close>: a flag of 0 (or a missing key) is falsy.\<close>

definition door_not_open :: "(string \<times> int) list \<Rightarrow> string \<Rightarrow> bool" where
  "door_not_open doors door = (case map_of doors door of None \<Rightarrow> True | Some v \<Rightarrow> v = 0)"

text \<open>
  \<^verbatim>\<open>locked && !trunkOpen && !hoodOpen
     && Object.keys(doorOpen).reduce((closedAccu, door) => closedAccu || !doorOpen[door], true)\<close>
\<close>

definition closedLocked :: "vehicle_status \<Rightarrow> bool" where
  "closedLocked st =
     (doorLock st \<and> \<not> trunkOpen st \<and> \<not> hoodOpen st
      \<and> foldl (\<lambda>closedAccu door. closedAccu \<or> door_not_open (doorOpen st) door) True
           (map fst (doorOpen st)))"

text \<open>Decimal digits of a number, for \<^verbatim>\<open>charger.toString()\<close>.\<close>

fun digits10 :: "nat \<Rightarrow> string" where
  "digits10 n =
     (if n < 10 then [''0123456789'' ! n]
      else digits10 (n div 10) @ [''0123456789'' ! (n mod 10)])"

declare digits10.simps [simp del]

definition toString :: "int \<Rightarrow> string" where
  "toString i = (if i < 0 then CHR ''-'' # digits10 (nat (- i)) else digits10 (nat i))"

text \<open>
  \<^verbatim>\<open>distance(location)\<close>: the great-circle distance of the GeoPoint library, rounded to
  one decimal by \<^verbatim>\<open>Math.round(d * 10) / 10\<close>, which leaves NaN as it is.
\<close>

definition distance :: "env \<Rightarrow> settings \<Rightarrow> car_location \<Rightarrow> error + jsval" where
  "distance ev cfg loc =
     (case distanceTo ev (latitude loc) (longitude loc) (lat cfg) (lon cfg) of
        Inl e \<Rightarrow> Inl e
      | Inr None \<Rightarrow> Inr JNaN
      | Inr (Some d) \<Rightarrow> Inr (JNum (of_int (round (d * 10)) / 10)))"

section \<open>Change detection and publication: \<^verbatim>\<open>handleInfo\<close>\<close>

text \<open>One directional flow trigger: fired only when the property changed.\<close>

definition flow_trigger :: "bool \<Rightarrow> bool \<Rightarrow> string \<Rightarrow> string \<Rightarrow> event list" where
  "flow_trigger changed v card_true card_false =
     (if changed then (if v then [TriggerCard card_true] else [TriggerCard card_false]) else [])"

text \<open>The \<^verbatim>\<open>setCapability\<close> calls before \<^verbatim>\<open>odometer.value\<close> is read (12 calls).\<close>

definition capabilities_upto_charger ::
  "env \<Rightarrow> settings \<Rightarrow> vehicle_status \<Rightarrow> (string \<times> jsval) list" where
  "capabilities_upto_charger ev cfg st =
     (let EVBatteryCharge = batteryStatus (evStatus st);
          batteryCharge12V = batSoc st;
          alarmEVBattery = (EVBatteryCharge \<le> EVbatteryAlarmLevel cfg);
          alarmBattery = (batteryCharge12V \<le> batteryAlarmLevel cfg)
      in [(''measure_battery.EV'', JNum EVBatteryCharge),
          (''measure_battery.12V'', JNum batteryCharge12V),
          (''alarm_battery'', JBool (alarmBattery \<or> alarmEVBattery)),
          (''alarm_tire_pressure'', JBool (tirePressureLampAll st \<noteq> 0)),
          (''locked'', JBool (doorLock st)),
          (''closed_locked'', JBool (closedLocked st)),
          (''target_temperature'', getTempFromCode ev (airTemp st)),
          (''defrost'', JBool (defrost st)),
          (''climate_control'', JBool (airCtrlOn st)),
          (''engine'', JBool (engine st)),
          (''charging'', JBool (batteryCharge (evStatus st))),
          (''charger'', JStr (toString (batteryPlugin (evStatus st))))])"

text \<open>The calls from \<^verbatim>\<open>odometer.value\<close> on (6 calls).\<close>

definition capabilities_from_odometer ::
  "odometer_reading \<Rightarrow> real \<Rightarrow> car_location \<Rightarrow> string \<Rightarrow> jsval \<Rightarrow> bool \<Rightarrow> (string \<times> jsval) list" where
  "capabilities_from_odometer odo avail loc locString km live =
     [(''odometer'', JNum (odo_value odo)),
      (''range'', JNum avail),
      (''speed'', JNum (speed loc)),
      (''location'', JStr locString),
      (''distance'', km),
      (''live_data'', JBool live)]"

text \<open>The eighteen derived properties, in the order of the \<^verbatim>\<open>setCapability\<close> calls.\<close>

definition derived_capabilities ::
  "env \<Rightarrow> settings \<Rightarrow> bool \<Rightarrow> vehicle_status \<Rightarrow> real \<Rightarrow> car_location \<Rightarrow> odometer_reading
     \<Rightarrow> string \<Rightarrow> jsval \<Rightarrow> (string \<times> jsval) list" where
  "derived_capabilities ev cfg live st avail loc odo locString km =
     capabilities_upto_charger ev cfg st
     @ capabilities_from_odometer odo avail loc locString km live"

text \<open>
  The part of \<^verbatim>\<open>handleInfo\<close> after the reverse geocoder has answered: the four changes are
  detected against the stored capability values, then the capabilities are written, then
  the flow triggers are fired. A missing odometer raises at \<^verbatim>\<open>odometer.value\<close>, after the
  first twelve writes.
\<close>

definition publish ::
  "env \<Rightarrow> vehicle_status \<Rightarrow> real \<Rightarrow> car_location \<Rightarrow> odometer_reading option \<Rightarrow> jsval \<Rightarrow> string
     \<Rightarrow> device \<Rightarrow> capabilities \<times> event list" where
  "publish ev st avail loc odometer km locString s =
     (let cs = capabilities s;
          charging = batteryCharge (evStatus st);
          engineChange = (JBool (engine st) \<noteq> getCapabilityValue cs ''engine'');
          chargingChange = (JBool charging \<noteq> getCapabilityValue cs ''charging'');
          climateControlChange = (JBool (airCtrlOn st) \<noteq> getCapabilityValue cs ''climate_control'');
          defrostChange = (JBool (defrost st) \<noteq> getCapabilityValue cs ''defrost'');
          (cs1, w1) = setCapabilities (capabilities_upto_charger ev (settings s) st) cs
      in case odometer of
           None \<Rightarrow> (cs1, w1 @ [ErrorLog (TypeError ''odometer'')])
         | Some odo \<Rightarrow>
             (let (cs2, w2) =
                    setCapabilities
                      (capabilities_from_odometer odo avail loc locString km (liveData s)) cs1
              in (cs2,
                  w1 @ w2
                  @ flow_trigger engineChange (engine st) ''engine_true'' ''engine_false''
                  @ flow_trigger chargingChange charging ''charging_true'' ''charging_false''
                  @ flow_trigger climateControlChange (airCtrlOn st)
                      ''climate_control_true'' ''climate_control_false''
                  @ flow_trigger defrostChange (defrost st) ''defrost_true'' ''defrost_false'')))"

text \<open>
  \<^verbatim>\<open>handleInfo\<close>: every exception is caught inside and reported with \<^verbatim>\<open>this.error\<close>; the
  caller never sees it. The only state it writes is the platform's capability store,
  which it returns.
\<close>

definition handleInfo :: "env \<Rightarrow> info \<Rightarrow> device \<Rightarrow> capabilities \<times> event list" where
  "handleInfo ev data s =
     (case info_status data of
        None \<Rightarrow> (capabilities s, [ErrorLog (TypeError ''status'')])
      | Some st \<Rightarrow>
          (case drvDistance (evStatus st) of
             [] \<Rightarrow> (capabilities s, [ErrorLog (TypeError ''drvDistance'')])
           | avail # _ \<Rightarrow>
               (case info_location data of
                  None \<Rightarrow> (capabilities s, [ErrorLog (TypeError ''location'')])
                | Some loc \<Rightarrow>
                    (case distance ev (settings s) loc of
                       Inl e \<Rightarrow> (capabilities s, [ErrorLog e])
                     | Inr km \<Rightarrow>
                         (case getCarLocString ev loc of
                            Inl e \<Rightarrow> (capabilities s, [GeoLookup loc, ErrorLog e])
                          | Inr locString \<Rightarrow>
                              (let (cs, tr) = publish ev st avail loc (info_odometer data) km locString s
                               in (cs, GeoLookup loc # tr)))))))"

section \<open>Telemetry forwarding: \<^verbatim>\<open>abrpTelemetry\<close>\<close>

text \<open>
  \<^verbatim>\<open>abrpTelemetry\<close> is called without \<^verbatim>\<open>await\<close>. The first component is what happens during
  the call (up to the send), the second what happens once the send has settled: a
  rejection is caught and reported.
\<close>

definition abrpTelemetry :: "env \<Rightarrow> info \<Rightarrow> event list \<times> event list" where
  "abrpTelemetry ev data =
     (case info_status data of
        None \<Rightarrow> ([ErrorLog (TypeError ''status'')], [])
      | Some st \<Rightarrow>
          (case info_location data of
             None \<Rightarrow> ([ErrorLog (TypeError ''location'')], [])
           | Some loc \<Rightarrow>
               ([AbrpSend (latitude loc) (longitude loc) (speed loc)
                   (batteryStatus (evStatus st)) (batteryCharge (evStatus st))],
                (case abrp_send ev of None \<Rightarrow> [] | Some e \<Rightarrow> [ErrorLog e]))))"

section \<open>Calls that are not awaited\<close>

text \<open>The calls of a collaborator whose answer the device awaits.\<close>

fun is_awaited :: "event \<Rightarrow> bool" where
  "is_awaited Login = True"
| "is_awaited (StatusCall _) = True"
| "is_awaited LocationCall = True"
| "is_awaited OdometerCall = True"
| "is_awaited (AbrpSend _ _ _ _ _) = True"
| "is_awaited (GeoLookup _) = True"
| "is_awaited _ = False"

text \<open>
  An asynchronous method that is called without \<^verbatim>\<open>await\<close> runs until its first awaited
  call; then the caller goes on, and the rest of the method follows. \<open>callee\<close> is the whole
  trace of the method, \<open>next\<close> what the caller does after the call. A method whose trace
  does not begin with an awaited call has finished before it returns.
\<close>

definition resume_caller :: "event list \<Rightarrow> event list \<Rightarrow> event list" where
  "resume_caller callee next =
     (case callee of
        [] \<Rightarrow> next
      | e # rest \<Rightarrow> if is_awaited e then e # next @ rest else callee @ next)"

section \<open>Scheduling: \<^verbatim>\<open>stopPolling\<close>, \<^verbatim>\<open>restartDevice\<close>\<close>

definition stopPolling :: "event list" where
  "stopPolling = [ClearInterval]"

text \<open>\<^verbatim>\<open>restartDevice(delay)\<close>: \<^verbatim>\<open>delay || 1000 * 60 * 5\<close>.\<close>

definition restartDevice :: "int option \<Rightarrow> event list" where
  "restartDevice delay =
     stopPolling
     @ [SetTimeoutInit (case delay of None \<Rightarrow> 1000 * 60 * 5
                        | Some d \<Rightarrow> if d = 0 then 1000 * 60 * 5 else d)]"

section \<open>One poll cycle: \<^verbatim>\<open>doPoll\<close>\<close>

text \<open>The \<^verbatim>\<open>catch\<close> block of \<^verbatim>\<open>doPoll\<close>.\<close>

definition poll_catch :: "error \<Rightarrow> device \<Rightarrow> event list \<Rightarrow> device \<times> event list" where
  "poll_catch e s tr =
     (s\<lparr>watchDogCounter := watchDogCounter s - 1, busy := False\<rparr>, tr @ [PollError e])"

text \<open>
  \<^verbatim>\<open>force || (pollIntervalForced && (pollIntervalForced * 60 * 1000) < (Date.now() - this.lastRefresh))
     || !status || !location || !odometer\<close>;
  with \<^verbatim>\<open>lastRefresh\<close> undefined the difference is NaN and the comparison false.
\<close>

definition forceRefresh :: "env \<Rightarrow> bool \<Rightarrow> device \<Rightarrow> bool" where
  "forceRefresh ev force s =
     (force
      \<or> (pollIntervalForced (settings s) \<noteq> 0
         \<and> (case lastRefresh s of
              None \<Rightarrow> False
            | Some t \<Rightarrow> pollIntervalForced (settings s) * 60 * 1000 < now_interval ev - t))
      \<or> lastStatus s = None \<or> lastLocation s = None \<or> lastOdometer s = None)"

text \<open>
  Lines 146 to 163: timestamps, telemetry, publication, success path of the watchdog.
  \<^verbatim>\<open>abrpTelemetry\<close> and \<^verbatim>\<open>handleInfo\<close> are called without \<^verbatim>\<open>await\<close> and catch their own errors:
  whatever happens inside them, the counter is set to 5 and \<open>busy\<close> is cleared. In the
  trace the send of the forwarder comes first, then \<^verbatim>\<open>handleInfo\<close> up to its reverse
  geocoding call, then what follows once the send has settled, then the rest of
  \<^verbatim>\<open>handleInfo\<close>.
\<close>

definition poll_publish ::
  "env \<Rightarrow> bool \<Rightarrow> bool \<Rightarrow> vehicle_status option \<Rightarrow> car_location option
     \<Rightarrow> odometer_reading option \<Rightarrow> device \<Rightarrow> event list \<Rightarrow> device \<times> event list" where
  "poll_publish ev active newStatus status location odometer s tr =
     (let s1 = s\<lparr>lastRefresh := (if newStatus then Some (now_refresh ev) else lastRefresh s)\<rparr>;
          s2 = s1\<lparr>carLastActive := (if active then lastRefresh s1 else carLastActive s1)\<rparr>;
          data = \<lparr>info_status = status, info_location = location, info_odometer = odometer\<rparr>;
          (abrp, abrp_settled) =
             (if liveData s2 \<and> length (abrp_user_token (settings s2)) > 5
              then abrpTelemetry ev data else ([], []));
          (cs, published) = handleInfo ev data s2
      in (s2\<lparr>capabilities := cs, watchDogCounter := 5, busy := False\<rparr>,
          tr @ abrp @ resume_caller published abrp_settled))"

text \<open>Lines 136 to 144: the stored status, then location and odometer of a new status.\<close>

definition poll_store ::
  "env \<Rightarrow> bool \<Rightarrow> bool \<Rightarrow> vehicle_status option \<Rightarrow> car_location option
     \<Rightarrow> odometer_reading option \<Rightarrow> device \<Rightarrow> event list \<Rightarrow> device \<times> event list" where
  "poll_store ev active newStatus status location odometer s tr =
     (let s1 = s\<lparr>lastStatus := status\<rparr>
      in if newStatus then
           (case location_res ev of
              Inl e \<Rightarrow> poll_catch e s1 (tr @ [LocationCall])
            | Inr loc \<Rightarrow>
                (let s2 = s1\<lparr>lastLocation := Some loc\<rparr>
                 in case odometer_res ev of
                      Inl e \<Rightarrow> poll_catch e s2 (tr @ [LocationCall, OdometerCall])
                    | Inr odo \<Rightarrow>
                        poll_publish ev active newStatus status (Some loc) (Some odo)
                          (s2\<lparr>lastOdometer := Some odo\<rparr>) (tr @ [LocationCall, OdometerCall])))
         else poll_publish ev active newStatus status location odometer s1 tr)"

text \<open>
  Lines 119 to 135: is a full refresh needed? \<^verbatim>\<open>this.lastStatus.time\<close> raises when there is
  a status, its \<^verbatim>\<open>sleepModeCheck\<close> is false and no status was stored.
\<close>

definition carJustActive :: "env \<Rightarrow> device \<Rightarrow> bool" where
  "carJustActive ev s =
     (case carLastActive s of None \<Rightarrow> False | Some t \<Rightarrow> now_active ev - t < 5 * 60 * 1000)"

definition batSoCGood :: "vehicle_status option \<Rightarrow> device \<Rightarrow> bool" where
  "batSoCGood status s =
     (case status of None \<Rightarrow> True | Some st \<Rightarrow> batSoc st > batteryAlarmLevel (settings s))"

definition sleepModeChecked :: "vehicle_status option \<Rightarrow> device \<Rightarrow> error + bool" where
  "sleepModeChecked status s =
     (case status of
        None \<Rightarrow> Inr False
      | Some st \<Rightarrow>
          if sleepModeCheck st then Inr True
          else (case lastStatus s of
                  None \<Rightarrow> Inl (TypeError ''lastStatus.time'')
                | Some l \<Rightarrow> Inr (time st \<noteq> time l)))"

definition carActive :: "vehicle_status option \<Rightarrow> bool \<Rightarrow> bool" where
  "carActive status sleepCheck =
     (case status of
        None \<Rightarrow> False
      | Some st \<Rightarrow> engine st \<or> airCtrlOn st \<or> defrost st \<or> sleepCheck)"

definition poll_decide ::
  "env \<Rightarrow> bool \<Rightarrow> vehicle_status option \<Rightarrow> car_location option \<Rightarrow> odometer_reading option
     \<Rightarrow> device \<Rightarrow> event list \<Rightarrow> device \<times> event list" where
  "poll_decide ev forced status location odometer s tr =
     (case sleepModeChecked status s of
        Inl e \<Rightarrow> poll_catch e s tr
      | Inr sleepCheck \<Rightarrow>
          (let active = carActive status sleepCheck;
               live = (forced \<or> (batSoCGood status s \<and> (active \<or> carJustActive ev s)));
               s1 = s\<lparr>liveData := live\<rparr>
           in if live then
                (case status_refresh ev of
                   Inl e \<Rightarrow> poll_catch e s1 (tr @ [StatusCall True])
                 | Inr st \<Rightarrow>
                     poll_store ev active True (Some st) location odometer s1
                       (tr @ [StatusCall True]))
              else poll_store ev active False status location odometer s1 tr))"

text \<open>Lines 98 to 113: the cached status, unless a refresh is forced.\<close>

definition poll_fetch :: "env \<Rightarrow> bool \<Rightarrow> device \<Rightarrow> event list \<Rightarrow> device \<times> event list" where
  "poll_fetch ev force s tr =
     (let location = lastLocation s;
          odometer = lastOdometer s;
          forced = forceRefresh ev force s
      in if \<not> forced then
           (case status_cached ev of
              Inl e \<Rightarrow> poll_catch e s (tr @ [StatusCall False])
            | Inr st \<Rightarrow> poll_decide ev forced (Some st) location odometer s (tr @ [StatusCall False]))
         else poll_decide ev forced (lastStatus s) location odometer s tr)"

definition doPoll :: "env \<Rightarrow> bool \<Rightarrow> device \<Rightarrow> device \<times> event list" where
  "doPoll ev force s =
     (if watchDogCounter s \<le> 0 then (s, restartDevice None)
      else if busy s then (s\<lparr>watchDogCounter := watchDogCounter s - 1\<rparr>, [])
      else
        (let s1 = s\<lparr>busy := True\<rparr>
         in case login ev of
              Some e \<Rightarrow> poll_catch e s1 [Login]
            | None \<Rightarrow>
                if vehicle s1 = None then poll_catch NotLoggedIn s1 [Login]
                else poll_fetch ev force s1 [Login]))"

section \<open>Device life cycle: \<^verbatim>\<open>onInitDevice\<close>, \<^verbatim>\<open>startPolling\<close>, the ready handler\<close>

text \<open>
  The handler of the client's \<^verbatim>\<open>ready\<close> event:
  \<^verbatim>\<open>[this.vehicle] = vehicles.filter((veh) => veh.vehicleConfig.vin === this.settings.vin)\<close>.
\<close>

definition on_ready :: "vehicle list \<Rightarrow> device \<Rightarrow> device" where
  "on_ready vehicles s =
     s\<lparr>vehicle := (case filter (\<lambda>veh. config_vin (vehicleConfig veh) = vin (settings s)) vehicles of
                     [] \<Rightarrow> None
                   | veh # _ \<Rightarrow> Some veh)\<rparr>"

text \<open>
  \<^verbatim>\<open>startPolling(interval)\<close>: the interval is cleared, a first forced poll is started and
  the interval armed again. The first poll is not awaited: it runs up to its login call,
  then the interval is armed, then the rest of the poll follows.
\<close>

definition startPolling :: "env \<Rightarrow> int \<Rightarrow> device \<Rightarrow> device \<times> event list" where
  "startPolling ev interval s =
     (let (s1, tr) = doPoll ev True s
      in (s1, stopPolling @ resume_caller tr [SetInterval (1000 * 60 * interval)]))"

text \<open>
  What a run of \<^verbatim>\<open>onInitDevice\<close> meets: the settings the platform returns (reading the
  platform's settings store is taken not to fail), an exception raised by the rest of the
  set-up if there is one (the constructors of the client and of the forwarder, the length
  of a missing token), the \<^verbatim>\<open>ready\<close> event of the new client if it arrives during the ten
  seconds of waiting, and the collaborators' answers to the first poll.
\<close>

record init_env =
  new_settings :: settings
  setup_error :: "error option"
  ready_vehicles :: "vehicle list option"
  first_poll :: env

text \<open>Lines 40 to 43 of \<^verbatim>\<open>onInitDevice\<close>.\<close>

definition init_fields :: "settings \<Rightarrow> device \<Rightarrow> device" where
  "init_fields cfg s = s\<lparr>settings := cfg, vehicle := None, busy := False, watchDogCounter := 5\<rparr>"

text \<open>
  \<^verbatim>\<open>onInitDevice\<close>: the whole body is in a \<^verbatim>\<open>try\<close> block; an exception of the set-up is
  reported and \<^verbatim>\<open>startPolling\<close> is not reached.
\<close>

definition onInitDevice :: "init_env \<Rightarrow> device \<Rightarrow> device \<times> event list" where
  "onInitDevice ie s =
     (let s1 = init_fields (new_settings ie) s
      in case setup_error ie of
           Some e \<Rightarrow> (s1, [ErrorLog e])
         | None \<Rightarrow>
             (let s2 = (case ready_vehicles ie of
                          None \<Rightarrow> s1
                        | Some vehicles \<Rightarrow> on_ready vehicles s1)
              in startPolling (first_poll ie) (pollInterval (settings s2)) s2))"

section \<open>Sequential execution\<close>

text \<open>
  What can happen to a device, one thing at a time: a poll (scheduled, or forced by a
  flow card or a capability listener), the \<^verbatim>\<open>ready\<close> event of the client, and the timer
  of \<^verbatim>\<open>restartDevice\<close> running \<^verbatim>\<open>onInitDevice\<close>.
\<close>

datatype step = Poll env bool | Ready "vehicle list" | Init init_env

fun exec :: "step \<Rightarrow> device \<Rightarrow> device \<times> event list" where
  "exec (Poll ev force) s = doPoll ev force s"
| "exec (Ready vehicles) s = (on_ready vehicles s, [])"
| "exec (Init ie) s = onInitDevice ie s"

fun run :: "step list \<Rightarrow> device \<Rightarrow> device" where
  "run [] s = s"
| "run (x # xs) s = run xs (fst (exec x s))"

section \<open>Reading a trace\<close>

fun is_fetch :: "event \<Rightarrow> bool" where
  "is_fetch Login = True"
| "is_fetch (StatusCall _) = True"
| "is_fetch LocationCall = True"
| "is_fetch OdometerCall = True"
| "is_fetch _ = False"

fun is_poll_error :: "event \<Rightarrow> bool" where
  "is_poll_error (PollError _) = True"
| "is_poll_error _ = False"

fun is_trigger :: "event \<Rightarrow> bool" where
  "is_trigger (TriggerCard _) = True"
| "is_trigger _ = False"

fun is_write :: "event \<Rightarrow> bool" where
  "is_write (SetCapabilityValue _ _) = True"
| "is_write _ = False"

text \<open>An event of the publication phase: neither a call of the vehicle API nor a poll error.\<close>

definition publication :: "event \<Rightarrow> bool" where
  "publication e = (\<not> is_fetch e \<and> \<not> is_poll_error e)"

text \<open>The four booleans whose transitions fire a flow trigger.\<close>

datatype monitored = Engine | Charging | ClimateControl | Defrost

fun new_value :: "monitored \<Rightarrow> vehicle_status \<Rightarrow> bool" where
  "new_value Engine st = engine st"
| "new_value Charging st = batteryCharge (evStatus st)"
| "new_value ClimateControl st = airCtrlOn st"
| "new_value Defrost st = defrost st"

fun capability_of :: "monitored \<Rightarrow> string" where
  "capability_of Engine = ''engine''"
| "capability_of Charging = ''charging''"
| "capability_of ClimateControl = ''climate_control''"
| "capability_of Defrost = ''defrost''"

fun card_of :: "monitored \<Rightarrow> bool \<Rightarrow> string" where
  "card_of p True = capability_of p @ ''_true''"
| "card_of p False = capability_of p @ ''_false''"

definition changed :: "monitored \<Rightarrow> vehicle_status \<Rightarrow> capabilities \<Rightarrow> bool" where
  "changed p st cs = (JBool (new_value p st) \<noteq> getCapabilityValue cs (capability_of p))"

text \<open>The flow triggers of one publication, in the order in which they are fired.\<close>

definition triggers_of :: "vehicle_status \<Rightarrow> capabilities \<Rightarrow> event list" where
  "triggers_of st cs =
     flow_trigger (changed Engine st cs) (engine st) ''engine_true'' ''engine_false''
     @ flow_trigger (changed Charging st cs) (batteryCharge (evStatus st))
         ''charging_true'' ''charging_false''
     @ flow_trigger (changed ClimateControl st cs) (airCtrlOn st)
         ''climate_control_true'' ''climate_control_false''
     @ flow_trigger (changed Defrost st cs) (defrost st) ''defrost_true'' ''defrost_false''"

section \<open>Concrete devices and answers\<close>

definition cfg0 :: settings where
  "cfg0 = \<lparr>vin = ''KNA1'', pollInterval = 5, pollIntervalForced = 0, batteryAlarmLevel = 50,
           EVbatteryAlarmLevel = 20, abrp_user_token = [], lat = 52, lon = 5\<rparr>"

definition st_parked :: vehicle_status where
  "st_parked = \<lparr>engine = False, doorLock = True, airCtrlOn = False, defrost = False,
     trunkOpen = False, hoodOpen = False,
     doorOpen = [(''frontLeft'', 0), (''frontRight'', 0), (''backLeft'', 0), (''backRight'', 0)],
     airTemp = ''10H'', tirePressureLampAll = 0, batSoc = 85, sleepModeCheck = False,
     time = ''20200721101303'',
     evStatus = \<lparr>batteryPlugin = 0, batteryCharge = False, batteryStatus = 72,
                 drvDistance = [334]\<rparr>\<rparr>"

definition st_door_open :: vehicle_status where
  "st_door_open = st_parked\<lparr>doorOpen :=
     [(''frontLeft'', 1), (''frontRight'', 0), (''backLeft'', 0), (''backRight'', 0)]\<rparr>"

definition st_engine_on :: vehicle_status where
  "st_engine_on = st_parked\<lparr>engine := True, time := ''20200721101842''\<rparr>"

definition st_low_battery :: vehicle_status where
  "st_low_battery = st_parked\<lparr>batSoc := 40\<rparr>"

definition loc0 :: car_location where
  "loc0 = \<lparr>latitude = 52, longitude = 5, speed = 0\<rparr>"

definition loc_old :: car_location where
  "loc_old = \<lparr>latitude = 51, longitude = 4, speed = 30\<rparr>"

definition odo0 :: odometer_reading where
  "odo0 = \<lparr>odo_value = 171, odo_unit = 1\<rparr>"

definition odo_old :: odometer_reading where
  "odo_old = \<lparr>odo_value = 150, odo_unit = 1\<rparr>"

definition car0 :: vehicle where
  "car0 = \<lparr>vehicleConfig = \<lparr>config_vin = ''KNA1'', nickname = ''NIRO''\<rparr>\<rparr>"

definition env_ok :: env where
  "env_ok = \<lparr>now_interval = 1000000, now_active = 1000000, now_refresh = 1000000,
     login = None, status_cached = Inr st_parked, status_refresh = Inr st_parked,
     location_res = Inr loc0, odometer_res = Inr odo0, abrp_send = None,
     getCarLocString = (\<lambda>_. Inr ''Utrecht''), distanceTo = (\<lambda>_ _ _ _. Inr (Some 0)),
     getTempFromCode = (\<lambda>_. JNum 20)\<rparr>"

definition env_geo_down :: env where
  "env_geo_down = env_ok\<lparr>getCarLocString := (\<lambda>_. Inl (ApiError ''geo''))\<rparr>"

definition env_location_down :: env where
  "env_location_down = env_ok\<lparr>location_res := Inl (ApiError ''location'')\<rparr>"

definition env_odometer_down :: env where
  "env_odometer_down = env_ok\<lparr>odometer_res := Inl (ApiError ''odometer'')\<rparr>"

definition env_low_battery :: env where
  "env_low_battery = env_ok\<lparr>status_cached := Inr st_low_battery\<rparr>"

definition all_null :: capabilities where
  "all_null = map_of (map (\<lambda>c. (c, JNull))
     [''measure_battery.EV'', ''measure_battery.12V'', ''alarm_battery'', ''alarm_tire_pressure'',
      ''locked'', ''closed_locked'', ''target_temperature'', ''defrost'', ''climate_control'',
      ''engine'', ''charging'', ''charger'', ''odometer'', ''range'', ''speed'', ''location'',
      ''distance'', ''live_data''])"

text \<open>A device after \<^verbatim>\<open>onInitDevice\<close> and the \<^verbatim>\<open>ready\<close> event, before its first poll.\<close>

definition dev0 :: device where
  "dev0 = \<lparr>settings = cfg0, vehicle = Some car0, busy = False, watchDogCounter = 5,
     lastStatus = None, lastLocation = None, lastOdometer = None, lastRefresh = None,
     carLastActive = None, liveData = False, capabilities = all_null\<rparr>"

text \<open>A device that holds a complete snapshot, taken 100 seconds before \<open>env_ok\<close>.\<close>

definition dev_known :: device where
  "dev_known = dev0\<lparr>lastStatus := Some st_engine_on, lastLocation := Some loc_old,
     lastOdometer := Some odo_old, lastRefresh := Some 900000\<rparr>"

definition init0 :: init_env where
  "init0 = \<lparr>new_settings = cfg0, setup_error = None, ready_vehicles = Some [car0],
             first_poll = env_ok\<rparr>"

text \<open>A device wedged in a poll that never returned, its watchdog budget used up.\<close>

definition dev_stuck :: device where
  "dev_stuck = dev_known\<lparr>busy := True, watchDogCounter := 0\<rparr>"

text \<open>The capability store after a parked car has been published.\<close>

definition caps_parked :: capabilities where
  "caps_parked = all_null(''engine'' \<mapsto> JBool False, ''charging'' \<mapsto> JBool False,
     ''climate_control'' \<mapsto> JBool False, ''defrost'' \<mapsto> JBool False)"

text \<open>
  A car parked for a quarter of an hour; then a cached status that shows the engine
  running while the 12V battery is below the alarm level, and one minute later a cached
  status of the parked car with a good battery.
\<close>

definition dev_long_parked :: device where
  "dev_long_parked = dev_known\<lparr>lastStatus := Some st_parked, lastRefresh := Some 100000\<rparr>"

definition st_running_low :: vehicle_status where
  "st_running_low = st_parked\<lparr>engine := True, batSoc := 40\<rparr>"

definition env_running_low :: env where
  "env_running_low = env_ok\<lparr>status_cached := Inr st_running_low\<rparr>"

definition env_minute_later :: env where
  "env_minute_later = env_ok\<lparr>now_interval := 1060000, now_active := 1060000,
     now_refresh := 1060000\<rparr>"

text \<open>A set-up in which the constructor of the client raises.\<close>

definition init_failing :: init_env where
  "init_failing = init0\<lparr>setup_error := Some (ApiError ''client'')\<rparr>"

definition info0 :: info where
  "info0 = \<lparr>info_status = Some st_parked, info_location = Some loc0, info_odometer = Some odo0\<rparr>"

section \<open>The closed-and-locked flag\<close>

lemma foldl_or_True: "foldl (\<lambda>a d. a \<or> f d) True xs = True"
  by (induction xs) auto

text \<open>
  The reduction over the doors starts from \<open>True\<close> and combines with \<open>\<or>\<close>, so it is
  \<open>True\<close> whatever the doors say: the flag depends on lock, trunk and hood only.
\<close>

lemma closedLocked_ignores_doors:
  "closedLocked st = (doorLock st \<and> \<not> trunkOpen st \<and> \<not> hoodOpen st)"
  by (simp add: closedLocked_def foldl_or_True)

text \<open>
  C1. The claim: \<^verbatim>\<open>closed_locked\<close> is true iff the car is locked, trunk and hood are closed
  and every door-open flag is false; with locked = true and one door open it is false.
  The code computes otherwise: for the status \<open>st_door_open\<close> (locked, trunk and hood
  closed, front left door open) \<open>closedLocked\<close> is true.
\<close>

theorem closedLocked_with_open_door:
  "doorLock st_door_open \<and> \<not> trunkOpen st_door_open \<and> \<not> hoodOpen st_door_open
   \<and> map_of (doorOpen st_door_open) ''frontLeft'' = Some 1
   \<and> closedLocked st_door_open"
  by (simp add: st_door_open_def st_parked_def closedLocked_def door_not_open_def)

section \<open>What the publication phase can do\<close>

lemmas poll_defs =
  doPoll_def poll_fetch_def poll_decide_def poll_store_def poll_catch_def
  restartDevice_def stopPolling_def

lemmas model_defs =
  poll_defs forceRefresh_def sleepModeChecked_def carActive_def batSoCGood_def
  carJustActive_def poll_publish_def handleInfo_def publish_def abrpTelemetry_def distance_def
  capabilities_upto_charger_def capabilities_from_odometer_def setCapability_def
  hasCapability_def getCapabilityValue_def flow_trigger_def closedLocked_def toString_def
  digits10.simps door_not_open_def onInitDevice_def startPolling_def init_fields_def
  on_ready_def strict_ne_def resume_caller_def

lemmas run_defs =
  env_ok_def env_geo_down_def env_location_down_def env_odometer_down_def env_low_battery_def
  dev0_def dev_known_def dev_stuck_def cfg0_def st_parked_def st_engine_on_def st_low_battery_def
  st_door_open_def loc0_def loc_old_def odo0_def odo_old_def car0_def info0_def init0_def
  all_null_def caps_parked_def dev_long_parked_def st_running_low_def env_running_low_def
  env_minute_later_def init_failing_def

lemma setCapability_writes: "e \<in> set (snd (setCapability c v cs)) \<Longrightarrow> is_write e"
  by (simp add: setCapability_def split: if_splits)

lemma setCapabilities_writes: "e \<in> set (snd (setCapabilities ws cs)) \<Longrightarrow> is_write e"
proof (induction ws arbitrary: cs)
  case Nil
  then show ?case by simp
next
  case (Cons w ws)
  obtain c v where w: "w = (c, v)" by (cases w)
  from Cons.prems have "e \<in> set (snd (setCapability c v cs))
      \<or> e \<in> set (snd (setCapabilities ws (fst (setCapability c v cs))))"
    by (simp add: w split: prod.splits) 
  then show ?case
    using Cons.IH setCapability_writes by blast
qed

lemma flow_trigger_events: "e \<in> set (flow_trigger ch v a b) \<Longrightarrow> is_trigger e"
  by (simp add: flow_trigger_def split: if_splits)


lemma publication_simps [simp]:
  "is_write e \<Longrightarrow> publication e" "is_trigger e \<Longrightarrow> publication e"
  "publication (ErrorLog x)" "publication (GeoLookup l)" "publication (AbrpSend a b c d f)"
  by (cases e; simp add: publication_def)+

lemma publish_events:
  assumes "e \<in> set (snd (publish ev st avail loc odometer km locString s))"
  shows "publication e"
proof -
  obtain cs1 w1 where p1: "setCapabilities (capabilities_upto_charger ev (settings s) st) (capabilities s) = (cs1, w1)"
    by (cases "setCapabilities (capabilities_upto_charger ev (settings s) st) (capabilities s)")
  have w1: "x \<in> set w1 \<Longrightarrow> is_write x" for x
    using setCapabilities_writes [of x "capabilities_upto_charger ev (settings s) st" "capabilities s"] p1 by simp
  show ?thesis
  proof (cases odometer)
    case None
    with assms p1 have "e \<in> set w1 \<or> e = ErrorLog (TypeError ''odometer'')"
      by (auto simp: publish_def Let_def)
    then show ?thesis using w1 by auto
  next
    case (Some odo)
    obtain cs2 w2 where p2: "setCapabilities (capabilities_from_odometer odo avail loc locString km (liveData s)) cs1 = (cs2, w2)"
      by (cases "setCapabilities (capabilities_from_odometer odo avail loc locString km (liveData s)) cs1")
    have w2: "x \<in> set w2 \<Longrightarrow> is_write x" for x
      using setCapabilities_writes [of x "capabilities_from_odometer odo avail loc locString km (liveData s)" cs1] p2 by simp
    from assms p1 p2 Some have "e \<in> set w1 \<or> e \<in> set w2 \<or> is_trigger e"
      by (auto simp: publish_def Let_def dest: flow_trigger_events)
    then show ?thesis using w1 w2 by auto
  qed
qed

lemma publish_events_pair:
  "publish ev st avail loc odometer km locString s = (cs, tr) \<Longrightarrow> e \<in> set tr \<Longrightarrow> publication e"
  using publish_events [of e ev st avail loc odometer km locString s] by simp

lemma handleInfo_events:
  assumes "handleInfo ev data s = (cs, tr)" and "e \<in> set tr"
  shows "publication e"
  using assms
  by (auto simp: handleInfo_def Let_def dest: publish_events_pair
      split: prod.splits option.splits list.splits sum.splits)

lemma abrpTelemetry_events:
  "e \<in> set (fst (abrpTelemetry ev data)) \<union> set (snd (abrpTelemetry ev data)) \<Longrightarrow> publication e"
  by (auto simp: abrpTelemetry_def split: option.splits)

lemma set_resume_caller: "set (resume_caller callee next) = set callee \<union> set next"
  by (auto simp: resume_caller_def split: list.splits)

lemma resume_caller_Nil: "resume_caller callee [] = callee"
  by (simp add: resume_caller_def split: list.splits)


lemma poll_publish_summary:
  assumes "poll_publish ev a ns st loc odo s tr = (s', tr')"
  shows "watchDogCounter s' = 5 \<and> busy s' = False \<and> lastStatus s' = lastStatus s
     \<and> lastLocation s' = lastLocation s \<and> lastOdometer s' = lastOdometer s
     \<and> liveData s' = liveData s \<and> settings s' = settings s \<and> vehicle s' = vehicle s
     \<and> (\<exists>ext. tr' = tr @ ext \<and> (\<forall>e\<in>set ext. publication e))"
proof -
  define s1 where "s1 = s\<lparr>lastRefresh := (if ns then Some (now_refresh ev) else lastRefresh s)\<rparr>"
  define s2 where "s2 = s1\<lparr>carLastActive := (if a then lastRefresh s1 else carLastActive s1)\<rparr>"
  define data where "data = \<lparr>info_status = st, info_location = loc, info_odometer = odo\<rparr>"
  obtain cs pub where h: "handleInfo ev data s2 = (cs, pub)"
    by (cases "handleInfo ev data s2")
  define abrp where "abrp = (if liveData s2 \<and> length (abrp_user_token (settings s2)) > 5
                  then abrpTelemetry ev data else ([], []))"
  have r: "s' = s2\<lparr>capabilities := cs, watchDogCounter := 5, busy := False\<rparr>"
      "tr' = tr @ fst abrp @ resume_caller pub (snd abrp)"
    using assms h
    unfolding poll_publish_def Let_def s2_def [symmetric] s1_def [symmetric]
      data_def [symmetric] abrp_def [symmetric]
    by (simp_all add: case_prod_beta)
  have "e \<in> set (fst abrp) \<union> set (snd abrp) \<Longrightarrow> publication e" for e
    using abrpTelemetry_events [of e ev data] by (simp add: abrp_def split: if_splits)
  then have "\<forall>e\<in>set (fst abrp @ resume_caller pub (snd abrp)). publication e"
    using handleInfo_events [OF h] by (auto simp: set_resume_caller)
  then show ?thesis
    using r by (simp add: s2_def s1_def)
qed

lemma publication_not_poll_error: "publication e \<Longrightarrow> e \<noteq> PollError x"
  by (auto simp: publication_def)

lemma poll_publish_wd:
  assumes "poll_publish ev a ns st loc odo s tr = (s', tr')"
  shows "watchDogCounter s' = 5 \<and> (\<exists>x. PollError x \<in> set tr') = (\<exists>x. PollError x \<in> set tr)"
proof -
  from poll_publish_summary [OF assms] obtain ext
    where wd: "watchDogCounter s' = 5" and tr': "tr' = tr @ ext"
      and ext: "\<forall>e\<in>set ext. publication e"
    by blast
  have "PollError x \<notin> set ext" for x
    using ext publication_not_poll_error by blast
  with wd tr' show ?thesis by auto
qed

lemma poll_publish_frame:
  assumes "poll_publish ev a ns st loc odo s tr = (s', tr')"
  shows "watchDogCounter s' = 5 \<and> busy s' = False \<and> lastStatus s' = lastStatus s
     \<and> lastLocation s' = lastLocation s \<and> lastOdometer s' = lastOdometer s
     \<and> liveData s' = liveData s
     \<and> (StatusCall True \<in> set tr') = (StatusCall True \<in> set tr)
     \<and> (StatusCall False \<in> set tr') = (StatusCall False \<in> set tr)
     \<and> (\<exists>x. PollError x \<in> set tr') = (\<exists>x. PollError x \<in> set tr)"
proof -
  from poll_publish_summary [OF assms] obtain ext
    where fields: "watchDogCounter s' = 5 \<and> busy s' = False \<and> lastStatus s' = lastStatus s
       \<and> lastLocation s' = lastLocation s \<and> lastOdometer s' = lastOdometer s
       \<and> liveData s' = liveData s"
      and tr': "tr' = tr @ ext" and ext: "\<forall>e\<in>set ext. publication e"
    by blast
  have "StatusCall b \<notin> set ext" for b
    using ext by (auto simp: publication_def)
  moreover have "PollError x \<notin> set ext" for x
    using ext by (auto simp: publication_def)
  ultimately show ?thesis
    using fields tr' by auto
qed


section \<open>The watchdog counter\<close>

text \<open>
  C3, as the code has it. In one poll cycle the watchdog counter is left alone when the
  cycle starts with a counter of 0 or less (the restart path), is decremented by exactly
  one when the cycle is skipped because the device is busy or when it ends in the
  \<^verbatim>\<open>catch\<close> block (a \<open>PollError\<close> is reported), and is set to 5 in every other cycle: that
  is, as soon as login and fetches have succeeded and \<^verbatim>\<open>handleInfo\<close> has been called,
  whether or not the publication inside \<^verbatim>\<open>handleInfo\<close> succeeds.
\<close>

theorem watchdog_transitions:
  assumes "doPoll ev force s = (s', tr)"
  shows "watchDogCounter s' =
     (if watchDogCounter s \<le> 0 then watchDogCounter s
      else if busy s \<or> (\<exists>e. PollError e \<in> set tr) then watchDogCounter s - 1
      else 5)"
  using assms
  by (auto simp: poll_defs Let_def
      dest!: poll_publish_wd split: if_splits option.splits sum.splits)

text \<open>A forced poll whose location fetch is rejected takes the counter from 5 to 4.\<close>

theorem watchdog_transitions_witness:
  "snd (doPoll env_location_down True dev_known)
     = [Login, StatusCall True, LocationCall, PollError (ApiError ''location'')]
   \<and> watchDogCounter dev_known = 5
   \<and> watchDogCounter (fst (doPoll env_location_down True dev_known)) = 4"
proof -
  have tr: "snd (doPoll env_location_down True dev_known)
      = [Login, StatusCall True, LocationCall, PollError (ApiError ''location'')]"
    by (simp add: model_defs run_defs Let_def)
  have start: "watchDogCounter dev_known = 5" "\<not> busy dev_known"
    by (simp_all add: dev_known_def dev0_def)
  have run: "doPoll env_location_down True dev_known
      = (fst (doPoll env_location_down True dev_known),
         snd (doPoll env_location_down True dev_known))"
    by simp
  have "watchDogCounter (fst (doPoll env_location_down True dev_known)) = 4"
    using watchdog_transitions [OF run] by (simp add: tr start)
  with tr start show ?thesis by simp
qed

text \<open>
  C3, as the claim states it, fails: with the reverse geocoder down, \<^verbatim>\<open>handleInfo\<close> reports
  the error and publishes nothing (no capability write, no trigger), and the counter is
  reset from 3 to 5 all the same.
\<close>

theorem watchdog_reset_without_publication:
  "watchDogCounter (dev0\<lparr>watchDogCounter := 3\<rparr>) = 3
   \<and> snd (doPoll env_geo_down False (dev0\<lparr>watchDogCounter := 3\<rparr>))
       = [Login, StatusCall True, LocationCall, OdometerCall, GeoLookup loc0,
          ErrorLog (ApiError ''geo'')]
   \<and> watchDogCounter (fst (doPoll env_geo_down False (dev0\<lparr>watchDogCounter := 3\<rparr>))) = 5"
  by (simp add: model_defs run_defs Let_def)

lemma doPoll_range:
  assumes "0 \<le> watchDogCounter s" "watchDogCounter s \<le> 5"
  shows "0 \<le> watchDogCounter (fst (doPoll ev force s))
     \<and> watchDogCounter (fst (doPoll ev force s)) \<le> 5"
proof -
  obtain s' tr where r: "doPoll ev force s = (s', tr)"
    by (cases "doPoll ev force s")
  from r assms have "0 \<le> watchDogCounter s' \<and> watchDogCounter s' \<le> 5"
    by (auto simp: poll_defs Let_def
        dest!: poll_publish_wd split: if_splits option.splits sum.splits)
  then show ?thesis by (simp add: r)
qed

lemma doPoll_step:
  "(watchDogCounter s \<le> 5 \<and> watchDogCounter (fst (doPoll ev force s)) < watchDogCounter s
      \<longrightarrow> 0 < watchDogCounter s
        \<and> watchDogCounter (fst (doPoll ev force s)) = watchDogCounter s - 1)
   \<and> (watchDogCounter s < watchDogCounter (fst (doPoll ev force s))
      \<longrightarrow> watchDogCounter (fst (doPoll ev force s)) = 5)"
proof -
  obtain s' tr where r: "doPoll ev force s = (s', tr)"
    by (cases "doPoll ev force s")
  from r have "(watchDogCounter s \<le> 5 \<and> watchDogCounter s' < watchDogCounter s
      \<longrightarrow> 0 < watchDogCounter s \<and> watchDogCounter s' = watchDogCounter s - 1)
   \<and> (watchDogCounter s < watchDogCounter s' \<longrightarrow> watchDogCounter s' = 5)"
    by (auto simp: poll_defs Let_def
        dest!: poll_publish_wd split: if_splits option.splits sum.splits)
  then show ?thesis by (simp add: r)
qed

lemma onInitDevice_started:
  assumes "setup_error ie = None"
  shows "onInitDevice ie s =
     (fst (doPoll (first_poll ie) True
             (case ready_vehicles ie of
                None \<Rightarrow> init_fields (new_settings ie) s
              | Some vehicles \<Rightarrow> on_ready vehicles (init_fields (new_settings ie) s))),
      ClearInterval
      # resume_caller
          (snd (doPoll (first_poll ie) True
                  (case ready_vehicles ie of
                     None \<Rightarrow> init_fields (new_settings ie) s
                   | Some vehicles \<Rightarrow> on_ready vehicles (init_fields (new_settings ie) s))))
          [SetInterval (1000 * 60 * pollInterval (new_settings ie))])"
proof -
  define s2 where "s2 = (case ready_vehicles ie of
       None \<Rightarrow> init_fields (new_settings ie) s
     | Some vehicles \<Rightarrow> on_ready vehicles (init_fields (new_settings ie) s))"
  have p: "pollInterval (settings s2) = pollInterval (new_settings ie)"
    by (simp add: s2_def init_fields_def on_ready_def split: option.splits)
  have "onInitDevice ie s = startPolling (first_poll ie) (pollInterval (settings s2)) s2"
    using assms by (simp add: onInitDevice_def Let_def s2_def)
  then show ?thesis
    unfolding s2_def [symmetric]
    by (simp add: startPolling_def stopPolling_def p case_prod_beta)
qed

lemma onInitDevice_range:
  "0 \<le> watchDogCounter (fst (onInitDevice ie s))
   \<and> watchDogCounter (fst (onInitDevice ie s)) \<le> 5"
proof (cases "setup_error ie")
  case (Some e)
  then show ?thesis
    by (simp add: onInitDevice_def init_fields_def)
next
  case None
  define s2 where "s2 = (case ready_vehicles ie of
       None \<Rightarrow> init_fields (new_settings ie) s
     | Some vehicles \<Rightarrow> on_ready vehicles (init_fields (new_settings ie) s))"
  have "watchDogCounter s2 = 5"
    by (simp add: s2_def init_fields_def on_ready_def split: option.splits)
  then have "0 \<le> watchDogCounter (fst (doPoll (first_poll ie) True s2))
      \<and> watchDogCounter (fst (doPoll (first_poll ie) True s2)) \<le> 5"
    using doPoll_range [of s2] by simp
  then show ?thesis
    by (simp add: onInitDevice_started [OF None] s2_def)
qed

lemma exec_range:
  assumes "0 \<le> watchDogCounter s" "watchDogCounter s \<le> 5"
  shows "0 \<le> watchDogCounter (fst (exec x s)) \<and> watchDogCounter (fst (exec x s)) \<le> 5"
proof (cases x)
  case (Poll ev force)
  then show ?thesis using doPoll_range [OF assms] by simp
next
  case (Ready vs)
  then show ?thesis using assms by (simp add: on_ready_def)
next
  case (Init ie)
  then show ?thesis using onInitDevice_range by simp
qed

lemma run_range:
  "0 \<le> watchDogCounter s \<Longrightarrow> watchDogCounter s \<le> 5 \<Longrightarrow>
   0 \<le> watchDogCounter (run xs s) \<and> watchDogCounter (run xs s) \<le> 5"
proof (induction xs arbitrary: s)
  case Nil
  then show ?case by simp
next
  case (Cons x xs)
  then show ?case using exec_range [of s x] by simp
qed

text \<open>
  C10. When polls, \<^verbatim>\<open>ready\<close> events and restarts run one after the other, from the first
  \<^verbatim>\<open>onInitDevice\<close> on, the watchdog counter stays within 0 and 5. A poll that lowers a
  counter of at most 5 started from a strictly positive counter and lowers it by one; a
  poll that raises the counter sets it to exactly 5.
\<close>

theorem watchDogCounter_range:
  "0 \<le> watchDogCounter (run xs (fst (onInitDevice ie s)))
   \<and> watchDogCounter (run xs (fst (onInitDevice ie s))) \<le> 5
   \<and> (watchDogCounter d \<le> 5 \<and> watchDogCounter (fst (doPoll ev force d)) < watchDogCounter d
        \<longrightarrow> 0 < watchDogCounter d
          \<and> watchDogCounter (fst (doPoll ev force d)) = watchDogCounter d - 1)
   \<and> (watchDogCounter d < watchDogCounter (fst (doPoll ev force d))
        \<longrightarrow> watchDogCounter (fst (doPoll ev force d)) = 5)"
  using run_range [of "fst (onInitDevice ie s)" xs] onInitDevice_range [of ie s]
    doPoll_step [where ev = ev and force = force and s = d]
  by blast

theorem watchDogCounter_range_witness:
  "0 \<le> watchDogCounter (run [Poll env_location_down True, Poll env_ok False]
                            (fst (onInitDevice init0 dev0)))
   \<and> watchDogCounter (run [Poll env_location_down True, Poll env_ok False]
                          (fst (onInitDevice init0 dev0))) \<le> 5
   \<and> watchDogCounter (fst (doPoll env_location_down True dev_known)) < watchDogCounter dev_known
   \<and> 0 < watchDogCounter dev_known
   \<and> watchDogCounter (fst (doPoll env_location_down True dev_known)) = 4"
proof -
  have lower: "watchDogCounter (fst (doPoll env_location_down True dev_known)) = 4"
    by (simp add: model_defs run_defs Let_def)
  have start: "watchDogCounter dev_known = 5"
    by (simp add: dev_known_def dev0_def)
  show ?thesis
    using watchDogCounter_range [where xs = "[Poll env_location_down True, Poll env_ok False]"
        and ie = init0 and s = dev0 and ev = env_location_down and force = True
        and d = dev_known]
    by (simp add: lower start)
qed

section \<open>Watchdog exhaustion\<close>





section \<open>A failed location fetch\<close>

text \<open>
  C9. In a poll cycle whose full-refresh status fetch succeeds and whose location fetch
  is rejected, the stored location is retained, the cycle ends in the \<^verbatim>\<open>catch\<close> block
  (\<open>busy\<close> cleared, the error reported, the counter decremented by one) and nothing is
  called after the one location fetch: no retry, no odometer fetch, no publication.
\<close>

theorem location_failure_path:
  assumes "doPoll ev force s = (s', tr)" and "StatusCall True \<in> set tr"
      and "status_refresh ev = Inr st" and "location_res ev = Inl e"
  shows "lastLocation s' = lastLocation s \<and> \<not> busy s'
     \<and> watchDogCounter s' = watchDogCounter s - 1
     \<and> (tr = [Login, StatusCall True, LocationCall, PollError e]
        \<or> tr = [Login, StatusCall False, StatusCall True, LocationCall, PollError e])"
  using assms
  by (auto simp: poll_defs Let_def
      dest!: poll_publish_frame split: if_splits option.splits sum.splits)

theorem location_failure_path_witness:
  "StatusCall True \<in> set (snd (doPoll env_location_down False dev_known))
   \<and> lastLocation (fst (doPoll env_location_down False dev_known)) = Some loc_old
   \<and> \<not> busy (fst (doPoll env_location_down False dev_known))
   \<and> watchDogCounter (fst (doPoll env_location_down False dev_known)) = 4
   \<and> snd (doPoll env_location_down False dev_known)
       = [Login, StatusCall False, StatusCall True, LocationCall,
          PollError (ApiError ''location'')]"
proof -
  have run: "doPoll env_location_down False dev_known
      = (fst (doPoll env_location_down False dev_known),
         snd (doPoll env_location_down False dev_known))"
    by simp
  have tr: "snd (doPoll env_location_down False dev_known)
       = [Login, StatusCall False, StatusCall True, LocationCall,
          PollError (ApiError ''location'')]"
    by (simp add: model_defs run_defs Let_def)
  have live: "StatusCall True \<in> set (snd (doPoll env_location_down False dev_known))"
    by (simp add: tr)
  have answers: "status_refresh env_location_down = Inr st_parked"
      "location_res env_location_down = Inl (ApiError ''location'')"
    by (simp_all add: env_location_down_def env_ok_def)
  have start: "lastLocation dev_known = Some loc_old" "watchDogCounter dev_known = 5"
    by (simp_all add: dev_known_def dev0_def)
  show ?thesis
    using location_failure_path [OF run live answers] tr start by simp
qed

section \<open>The stored snapshot\<close>

lemma snapshot_odometer:
  assumes "doPoll ev force s = (s', tr)" and "lastOdometer s' \<noteq> lastOdometer s"
  shows "\<exists>st loc odo. status_refresh ev = Inr st \<and> location_res ev = Inr loc
       \<and> odometer_res ev = Inr odo \<and> StatusCall True \<in> set tr
       \<and> lastStatus s' = Some st \<and> lastLocation s' = Some loc \<and> lastOdometer s' = Some odo"
  using assms
  by (auto simp: poll_defs Let_def
      dest!: poll_publish_frame split: if_splits option.splits sum.splits)

lemma snapshot_location:
  assumes "doPoll ev force s = (s', tr)" and "lastLocation s' \<noteq> lastLocation s"
  shows "\<exists>st loc. status_refresh ev = Inr st \<and> location_res ev = Inr loc
       \<and> StatusCall True \<in> set tr
       \<and> lastStatus s' = Some st \<and> lastLocation s' = Some loc"
  using assms
  by (auto simp: poll_defs Let_def
      dest!: poll_publish_frame split: if_splits option.splits sum.splits)

lemma snapshot_status:
  assumes "doPoll ev force s = (s', tr)" and "lastStatus s' \<noteq> lastStatus s"
  shows "\<exists>st. lastStatus s' = Some st
       \<and> (status_refresh ev = Inr st \<and> StatusCall True \<in> set tr
          \<or> status_cached ev = Inr st \<and> StatusCall False \<in> set tr
            \<and> StatusCall True \<notin> set tr)"
  using assms
  by (auto simp: poll_defs Let_def
      dest!: poll_publish_frame split: if_splits option.splits sum.splits)

lemma snapshot_partial:
  assumes "doPoll ev force s = (s', tr)" and "StatusCall True \<in> set tr"
      and "status_refresh ev = Inr st"
  shows "lastStatus s' = Some st
     \<and> (case location_res ev of
          Inl e \<Rightarrow> lastLocation s' = lastLocation s \<and> lastOdometer s' = lastOdometer s
        | Inr loc \<Rightarrow> lastLocation s' = Some loc
            \<and> (case odometer_res ev of
                 Inl e \<Rightarrow> lastOdometer s' = lastOdometer s
               | Inr odo \<Rightarrow> lastOdometer s' = Some odo))"
  using assms
  by (auto simp: poll_defs Let_def
      dest!: poll_publish_frame split: if_splits option.splits sum.splits)

lemma sleepModeChecked_Inl: "sleepModeChecked status s = Inl x \<Longrightarrow> lastStatus s = None"
  by (auto simp: sleepModeChecked_def split: option.splits if_splits)

lemma forceRefresh_no_status: "lastStatus s = None \<Longrightarrow> forceRefresh ev force s"
  by (simp add: forceRefresh_def)

lemma snapshot_cached:
  assumes "doPoll ev force s = (s', tr)" and "StatusCall False \<in> set tr"
      and "StatusCall True \<notin> set tr" and "status_cached ev = Inr cached"
  shows "lastStatus s' = Some cached
     \<and> lastLocation s' = lastLocation s \<and> lastOdometer s' = lastOdometer s"
  using assms
  by (auto simp: poll_defs Let_def forceRefresh_no_status
      dest!: poll_publish_frame sleepModeChecked_Inl
      split: if_splits option.splits sum.splits)

text \<open>
  C2, as the code has it. The three stored fields are written one after the other, each
  as soon as its fetch has succeeded. The stored odometer changes only in a cycle whose
  full refresh, location and odometer fetches all succeeded, and then all three fields
  hold the values just fetched; the stored location changes only when the full refresh
  and the location fetch succeeded; the stored status is replaced by the refreshed status
  when a full refresh was made and succeeded, and otherwise by the cached status. So when
  the full refresh succeeds and the location fetch fails, the stored status is the new
  one while location and odometer are retained, and when only the odometer fetch fails,
  status and location are new and the odometer is retained.
\<close>

theorem snapshot_update_order:
  assumes "doPoll ev force s = (s', tr)"
  shows "(lastOdometer s' \<noteq> lastOdometer s \<longrightarrow>
           (\<exists>st loc odo. status_refresh ev = Inr st \<and> location_res ev = Inr loc
              \<and> odometer_res ev = Inr odo \<and> StatusCall True \<in> set tr
              \<and> lastStatus s' = Some st \<and> lastLocation s' = Some loc
              \<and> lastOdometer s' = Some odo))
     \<and> (lastLocation s' \<noteq> lastLocation s \<longrightarrow>
           (\<exists>st loc. status_refresh ev = Inr st \<and> location_res ev = Inr loc
              \<and> StatusCall True \<in> set tr
              \<and> lastStatus s' = Some st \<and> lastLocation s' = Some loc))
     \<and> (lastStatus s' \<noteq> lastStatus s \<longrightarrow>
           (\<exists>st. lastStatus s' = Some st
              \<and> (status_refresh ev = Inr st \<and> StatusCall True \<in> set tr
                 \<or> status_cached ev = Inr st \<and> StatusCall False \<in> set tr
                   \<and> StatusCall True \<notin> set tr)))
     \<and> (StatusCall False \<in> set tr \<and> StatusCall True \<notin> set tr
          \<and> status_cached ev = Inr cached \<longrightarrow>
           lastStatus s' = Some cached
           \<and> lastLocation s' = lastLocation s \<and> lastOdometer s' = lastOdometer s)
     \<and> (StatusCall True \<in> set tr \<and> status_refresh ev = Inr new \<longrightarrow>
           lastStatus s' = Some new
           \<and> (case location_res ev of
                Inl e \<Rightarrow> lastLocation s' = lastLocation s \<and> lastOdometer s' = lastOdometer s
              | Inr loc \<Rightarrow> lastLocation s' = Some loc
                  \<and> (case odometer_res ev of
                       Inl e \<Rightarrow> lastOdometer s' = lastOdometer s
                     | Inr odo \<Rightarrow> lastOdometer s' = Some odo)))"
  using snapshot_odometer [OF assms] snapshot_location [OF assms] snapshot_status [OF assms]
    snapshot_partial [OF assms, of new] snapshot_cached [OF assms, of cached]
  by blast


text \<open>
  With the odometer fetch rejected, status and location are new and the odometer is old;
  in a cycle without full refresh the cached status is stored and nothing else.
\<close>

theorem snapshot_update_order_witness:
  "StatusCall True \<in> set (snd (doPoll env_odometer_down True dev_known))
   \<and> status_refresh env_odometer_down = Inr st_parked
   \<and> lastStatus (fst (doPoll env_odometer_down True dev_known)) = Some st_parked
   \<and> lastLocation (fst (doPoll env_odometer_down True dev_known)) = Some loc0
   \<and> lastOdometer (fst (doPoll env_odometer_down True dev_known)) = lastOdometer dev_known
   \<and> StatusCall False \<in> set (snd (doPoll env_low_battery False dev_known))
   \<and> StatusCall True \<notin> set (snd (doPoll env_low_battery False dev_known))
   \<and> status_cached env_low_battery = Inr st_low_battery
   \<and> lastStatus (fst (doPoll env_low_battery False dev_known)) = Some st_low_battery
   \<and> lastLocation (fst (doPoll env_low_battery False dev_known)) = lastLocation dev_known
   \<and> lastOdometer (fst (doPoll env_low_battery False dev_known)) = lastOdometer dev_known"
proof -
  have run: "doPoll ev force s = (fst (doPoll ev force s), snd (doPoll ev force s))"
    for ev force s by simp
  have tr: "snd (doPoll env_odometer_down True dev_known)
       = [Login, StatusCall True, LocationCall, OdometerCall,
          PollError (ApiError ''odometer'')]"
    by (simp add: model_defs run_defs Let_def)
  have live: "StatusCall True \<in> set (snd (doPoll env_odometer_down True dev_known))"
    by (simp add: tr)
  have answers: "status_refresh env_odometer_down = Inr st_parked"
      "location_res env_odometer_down = Inr loc0"
      "odometer_res env_odometer_down = Inl (ApiError ''odometer'')"
      "status_cached env_low_battery = Inr st_low_battery"
    by (simp_all add: env_odometer_down_def env_low_battery_def env_ok_def)
  from snapshot_update_order [OF run, where new = st_parked] live answers(1)
  have "lastStatus (fst (doPoll env_odometer_down True dev_known)) = Some st_parked
           \<and> (case location_res env_odometer_down of
                Inl e \<Rightarrow> lastLocation (fst (doPoll env_odometer_down True dev_known)) = lastLocation dev_known
                   \<and> lastOdometer (fst (doPoll env_odometer_down True dev_known)) = lastOdometer dev_known
              | Inr loc \<Rightarrow> lastLocation (fst (doPoll env_odometer_down True dev_known)) = Some loc
                  \<and> (case odometer_res env_odometer_down of
                       Inl e \<Rightarrow> lastOdometer (fst (doPoll env_odometer_down True dev_known)) = lastOdometer dev_known
                     | Inr odo \<Rightarrow> lastOdometer (fst (doPoll env_odometer_down True dev_known)) = Some odo))"
    by blast
  then have first: "lastStatus (fst (doPoll env_odometer_down True dev_known)) = Some st_parked
      \<and> lastLocation (fst (doPoll env_odometer_down True dev_known)) = Some loc0
      \<and> lastOdometer (fst (doPoll env_odometer_down True dev_known)) = lastOdometer dev_known"
    by (simp add: answers)
  have calls: "StatusCall False \<in> set (snd (doPoll env_low_battery False dev_known))"
      "StatusCall True \<notin> set (snd (doPoll env_low_battery False dev_known))"
    by (simp_all add: model_defs run_defs Let_def)
  from snapshot_update_order [OF run, where cached = st_low_battery] calls answers(4)
  have second: "lastStatus (fst (doPoll env_low_battery False dev_known)) = Some st_low_battery
      \<and> lastLocation (fst (doPoll env_low_battery False dev_known)) = lastLocation dev_known
      \<and> lastOdometer (fst (doPoll env_low_battery False dev_known)) = lastOdometer dev_known"
    by blast
  show ?thesis
    using live answers(1,4) first calls second by simp
qed

text \<open>
  C2, as the claim states it, fails: in a forced poll whose full refresh succeeds and
  whose location fetch is rejected, the stored status is replaced by the new one while the
  stored location and odometer stay.
\<close>

theorem snapshot_status_replaced_alone:
  "lastStatus dev_known = Some st_engine_on
   \<and> lastStatus (fst (doPoll env_location_down True dev_known)) = Some st_parked
   \<and> st_parked \<noteq> st_engine_on
   \<and> lastLocation (fst (doPoll env_location_down True dev_known)) = lastLocation dev_known
   \<and> lastOdometer (fst (doPoll env_location_down True dev_known)) = lastOdometer dev_known"
proof -
  have run: "doPoll env_location_down True dev_known
     = (dev_known\<lparr>busy := False, liveData := True, lastStatus := Some st_parked,
          watchDogCounter := 4\<rparr>,
        [Login, StatusCall True, LocationCall, PollError (ApiError ''location'')])"
    by (simp add: model_defs run_defs Let_def)
  show ?thesis
    unfolding run by (simp add: run_defs)
qed

section \<open>Publication: capability writes and flow triggers\<close>

lemma setCapability_other:
  "c' \<noteq> c \<Longrightarrow> fst (setCapability c v cs) c' = cs c'"
  by (simp add: setCapability_def)

lemma setCapability_same:
  "fst (setCapability c v cs) c = (if cs c = None then None else Some v)"
  by (auto simp: setCapability_def hasCapability_def getCapabilityValue_def strict_ne_def
      split: option.splits)

lemma setCapability_events:
  "snd (setCapability c v cs)
     = (if hasCapability cs c \<and> strict_ne v (getCapabilityValue cs c)
        then [SetCapabilityValue c v] else [])"
  by (simp add: setCapability_def)

lemma needs_write_other:
  "fst w \<noteq> c \<Longrightarrow> needs_write (fst (setCapability c v cs)) w = needs_write cs w"
  by (simp add: needs_write_def hasCapability_def getCapabilityValue_def setCapability_other)

lemma setCapabilities_events:
  "distinct (map fst ws) \<Longrightarrow>
   snd (setCapabilities ws cs)
     = map (\<lambda>w. SetCapabilityValue (fst w) (snd w)) (filter (needs_write cs) ws)"
proof (induction ws arbitrary: cs)
  case Nil
  show ?case by simp
next
  case (Cons w ws)
  obtain c v where w: "w = (c, v)" by (cases w)
  from Cons.prems have d: "distinct (map fst ws)" and notin: "\<forall>x\<in>set ws. fst x \<noteq> c"
    by (auto simp: w)
  have same: "filter (needs_write (fst (setCapability c v cs))) ws = filter (needs_write cs) ws"
    using notin by (intro filter_cong) (auto simp: needs_write_other)
  have "snd (setCapabilities (w # ws) cs)
      = snd (setCapability c v cs) @ snd (setCapabilities ws (fst (setCapability c v cs)))"
    by (simp add: w split: prod.splits)
  also have "\<dots> = snd (setCapability c v cs)
      @ map (\<lambda>w. SetCapabilityValue (fst w) (snd w)) (filter (needs_write cs) ws)"
    using Cons.IH [OF d] same by simp
  finally have unfolded: "snd (setCapabilities (w # ws) cs)
      = snd (setCapability c v cs)
        @ map (\<lambda>w. SetCapabilityValue (fst w) (snd w)) (filter (needs_write cs) ws)" .
  have nw: "needs_write cs (c, v)
      = (hasCapability cs c \<and> strict_ne v (getCapabilityValue cs c))"
    by (simp add: needs_write_def)
  show ?case
    unfolding unfolded by (simp add: w setCapability_events nw)
qed

lemma setCapabilities_store:
  "distinct (map fst ws) \<Longrightarrow>
   fst (setCapabilities ws cs) c
     = (case map_of ws c of None \<Rightarrow> cs c | Some v \<Rightarrow> if cs c = None then None else Some v)"
proof (induction ws arbitrary: cs)
  case Nil
  show ?case by simp
next
  case (Cons w ws)
  obtain c0 v0 where w: "w = (c0, v0)" by (cases w)
  from Cons.prems have d: "distinct (map fst ws)" and notin: "c0 \<notin> fst ` set ws"
    by (auto simp: w)
  have step: "fst (setCapabilities (w # ws) cs) = fst (setCapabilities ws (fst (setCapability c0 v0 cs)))"
    by (simp add: w split: prod.splits)
  show ?case
  proof (cases "c = c0")
    case True
    with notin have "map_of ws c = None"
      by (simp add: map_of_eq_None_iff)
    then show ?thesis
      unfolding step
      using Cons.IH [OF d, of "fst (setCapability c0 v0 cs)"] True
      by (simp add: w setCapability_same)
  next
    case False
    then have other: "fst (setCapability c0 v0 cs) c = cs c"
      by (simp add: setCapability_other)
    show ?thesis
      unfolding step
      using Cons.IH [OF d, of "fst (setCapability c0 v0 cs)", unfolded other] False
      by (simp add: w)
  qed
qed

lemma setCapabilities_settled:
  assumes "distinct (map fst ws)"
  shows "filter (needs_write (fst (setCapabilities ws cs))) ws
     = filter (\<lambda>w. hasCapability cs (fst w) \<and> snd w = JNaN) ws"
proof (rule filter_cong [OF refl])
  fix w
  assume "w \<in> set ws"
  then have "map_of ws (fst w) = Some (snd w)"
    using map_of_is_SomeI [OF assms, of "fst w" "snd w"] by simp
  then show "needs_write (fst (setCapabilities ws cs)) w
      = (hasCapability cs (fst w) \<and> snd w = JNaN)"
    by (auto simp: needs_write_def hasCapability_def getCapabilityValue_def strict_ne_def
        setCapabilities_store [OF assms])
qed

lemma setCapabilities_append:
  "setCapabilities (xs @ ys) cs =
     (let (cs1, e1) = setCapabilities xs cs; (cs2, e2) = setCapabilities ys cs1
      in (cs2, e1 @ e2))"
  by (induction xs arbitrary: cs) (auto split: prod.splits)


lemma write_not_trigger: "is_write e \<Longrightarrow> \<not> is_trigger e"
  by (cases e) simp_all

lemma handleInfo_published:
  assumes "info_status data = Some st" and "drvDistance (evStatus st) = avail # further"
      and "info_location data = Some loc" and "distance ev (settings s) loc = Inr km"
      and "getCarLocString ev loc = Inr locString" and "info_odometer data = Some odo"
  shows "handleInfo ev data s =
     (fst (setCapabilities
             (derived_capabilities ev (settings s) (liveData s) st avail loc odo locString km)
             (capabilities s)),
      GeoLookup loc
      # snd (setCapabilities
               (derived_capabilities ev (settings s) (liveData s) st avail loc odo locString km)
               (capabilities s))
      @ triggers_of st (capabilities s))"
  using assms
  by (simp add: handleInfo_def publish_def derived_capabilities_def setCapabilities_append
      triggers_of_def changed_def Let_def split: prod.splits)

lemma derived_distinct:
  "distinct (map fst (derived_capabilities ev cfg live st avail loc odo locString km))"
  by (simp add: derived_capabilities_def capabilities_upto_charger_def
      capabilities_from_odometer_def Let_def)

lemma triggers_of_triggers: "filter is_trigger (triggers_of st cs) = triggers_of st cs"
  by (simp add: triggers_of_def flow_trigger_def)

lemma triggers_of_no_write: "filter is_write (triggers_of st cs) = []"
  by (simp add: triggers_of_def flow_trigger_def)

lemma writes_no_trigger: "filter is_trigger (snd (setCapabilities ws cs)) = []"
  using setCapabilities_writes write_not_trigger by (fastforce simp: filter_empty_conv)

lemma writes_all_write: "filter is_write (snd (setCapabilities ws cs)) = snd (setCapabilities ws cs)"
  using setCapabilities_writes by (fastforce simp: filter_id_conv)

text \<open>
  C6. When \<^verbatim>\<open>handleInfo\<close> gets as far as the publication (status with a range entry,
  location and odometer present, distance and reverse geocoding answered): if exactly one
  of engine, charging, climate control and defrost differs from its stored capability
  value, exactly one flow trigger is fired, the \<open>_true\<close> card of that property when its
  new value is true and the \<open>_false\<close> card otherwise; if none differs, no flow trigger is
  fired.
\<close>

theorem directional_triggers:
  assumes "info_status data = Some st" and "drvDistance (evStatus st) = avail # further"
      and "info_location data = Some loc" and "distance ev (settings s) loc = Inr km"
      and "getCarLocString ev loc = Inr locString" and "info_odometer data = Some odo"
  shows "(changed p st (capabilities s) \<and> (\<forall>q. q \<noteq> p \<longrightarrow> \<not> changed q st (capabilities s))
           \<longrightarrow> filter is_trigger (snd (handleInfo ev data s))
                 = [TriggerCard (card_of p (new_value p st))])
     \<and> ((\<forall>q. \<not> changed q st (capabilities s))
           \<longrightarrow> filter is_trigger (snd (handleInfo ev data s)) = [])"
proof -
  have fired: "filter is_trigger (snd (handleInfo ev data s)) = triggers_of st (capabilities s)"
    by (simp add: handleInfo_published [OF assms] writes_no_trigger triggers_of_triggers)
  have one: "triggers_of st (capabilities s) = [TriggerCard (card_of p (new_value p st))]"
    if p: "changed p st (capabilities s)"
      and others: "\<forall>q. q \<noteq> p \<longrightarrow> \<not> changed q st (capabilities s)"
  proof (cases p)
    case Engine
    with others have "\<not> changed Charging st (capabilities s)"
        "\<not> changed ClimateControl st (capabilities s)" "\<not> changed Defrost st (capabilities s)"
      by simp_all
    with p Engine show ?thesis
      by (cases "engine st") (simp_all add: triggers_of_def flow_trigger_def)
  next
    case Charging
    with others have "\<not> changed Engine st (capabilities s)"
        "\<not> changed ClimateControl st (capabilities s)" "\<not> changed Defrost st (capabilities s)"
      by simp_all
    with p Charging show ?thesis
      by (cases "batteryCharge (evStatus st)") (simp_all add: triggers_of_def flow_trigger_def)
  next
    case ClimateControl
    with others have "\<not> changed Engine st (capabilities s)"
        "\<not> changed Charging st (capabilities s)" "\<not> changed Defrost st (capabilities s)"
      by simp_all
    with p ClimateControl show ?thesis
      by (cases "airCtrlOn st") (simp_all add: triggers_of_def flow_trigger_def)
  next
    case Defrost
    with others have "\<not> changed Engine st (capabilities s)"
        "\<not> changed Charging st (capabilities s)" "\<not> changed ClimateControl st (capabilities s)"
      by simp_all
    with p Defrost show ?thesis
      by (cases "defrost st") (simp_all add: triggers_of_def flow_trigger_def)
  qed
  have none: "triggers_of st (capabilities s) = []"
    if "\<forall>q. \<not> changed q st (capabilities s)"
    using that by (simp add: triggers_of_def flow_trigger_def)
  show ?thesis
    using fired one none by simp
qed

theorem directional_triggers_witness:
  "changed Engine st_engine_on caps_parked
   \<and> \<not> changed Charging st_engine_on caps_parked
   \<and> \<not> changed ClimateControl st_engine_on caps_parked
   \<and> \<not> changed Defrost st_engine_on caps_parked
   \<and> filter is_trigger
        (snd (handleInfo env_ok (info0\<lparr>info_status := Some st_engine_on\<rparr>)
               (dev0\<lparr>capabilities := caps_parked\<rparr>)))
      = [TriggerCard ''engine_true'']
   \<and> filter is_trigger
        (snd (handleInfo env_ok info0 (dev0\<lparr>capabilities := caps_parked\<rparr>))) = []"
proof -
  have ch: "changed Engine st_engine_on caps_parked"
      "\<not> changed Charging st_engine_on caps_parked"
      "\<not> changed ClimateControl st_engine_on caps_parked"
      "\<not> changed Defrost st_engine_on caps_parked"
    by (simp_all add: changed_def getCapabilityValue_def caps_parked_def st_engine_on_def
        st_parked_def)
  have others: "\<forall>q. q \<noteq> Engine \<longrightarrow> \<not> changed q st_engine_on caps_parked"
  proof (intro allI impI)
    fix q :: monitored
    assume "q \<noteq> Engine"
    then show "\<not> changed q st_engine_on caps_parked"
      using ch by (cases q) simp_all
  qed
  have same: "\<forall>q. \<not> changed q st_parked caps_parked"
  proof
    fix q
    show "\<not> changed q st_parked caps_parked"
      by (cases q)
        (simp_all add: changed_def getCapabilityValue_def caps_parked_def st_parked_def)
  qed
  have a: "filter is_trigger
        (snd (handleInfo env_ok (info0\<lparr>info_status := Some st_engine_on\<rparr>)
               (dev0\<lparr>capabilities := caps_parked\<rparr>)))
      = [TriggerCard ''engine_true'']"
    using directional_triggers [where data = "info0\<lparr>info_status := Some st_engine_on\<rparr>"
        and st = st_engine_on and avail = 334 and further = "[]" and loc = loc0
        and ev = env_ok and s = "dev0\<lparr>capabilities := caps_parked\<rparr>" and km = "JNum 0"
        and locString = "''Utrecht''" and odo = odo0 and p = Engine]
      ch(1) others
    by (simp add: info0_def st_engine_on_def st_parked_def env_ok_def distance_def)
  have b: "filter is_trigger
        (snd (handleInfo env_ok info0 (dev0\<lparr>capabilities := caps_parked\<rparr>))) = []"
    using directional_triggers [where data = info0
        and st = st_parked and avail = 334 and further = "[]" and loc = loc0
        and ev = env_ok and s = "dev0\<lparr>capabilities := caps_parked\<rparr>" and km = "JNum 0"
        and locString = "''Utrecht''" and odo = odo0 and p = Engine]
      same
    by (simp add: info0_def st_parked_def env_ok_def distance_def)
  show ?thesis
    using ch a b by simp
qed

lemma derived_capabilities_list:
  "derived_capabilities ev cfg live st avail loc odo locString km =
     [(''measure_battery.EV'', JNum (batteryStatus (evStatus st))),
      (''measure_battery.12V'', JNum (batSoc st)),
      (''alarm_battery'',
         JBool (batSoc st \<le> batteryAlarmLevel cfg
                \<or> batteryStatus (evStatus st) \<le> EVbatteryAlarmLevel cfg)),
      (''alarm_tire_pressure'', JBool (tirePressureLampAll st \<noteq> 0)),
      (''locked'', JBool (doorLock st)),
      (''closed_locked'', JBool (closedLocked st)),
      (''target_temperature'', getTempFromCode ev (airTemp st)),
      (''defrost'', JBool (defrost st)),
      (''climate_control'', JBool (airCtrlOn st)),
      (''engine'', JBool (engine st)),
      (''charging'', JBool (batteryCharge (evStatus st))),
      (''charger'', JStr (toString (batteryPlugin (evStatus st)))),
      (''odometer'', JNum (odo_value odo)),
      (''range'', JNum avail),
      (''speed'', JNum (speed loc)),
      (''location'', JStr locString),
      (''distance'', km),
      (''live_data'', JBool live)]"
  by (simp add: derived_capabilities_def capabilities_upto_charger_def
      capabilities_from_odometer_def Let_def)

text \<open>
  C7, as the code has it. When \<^verbatim>\<open>handleInfo\<close> gets as far as the publication, it calls the
  device's own \<^verbatim>\<open>setCapability\<close> for each of the eighteen derived properties, and
  \<^verbatim>\<open>setCapability\<close> calls the platform's \<^verbatim>\<open>setCapabilityValue\<close> only for a capability the
  device has and a value that differs (\<^verbatim>\<open>!==\<close>) from the stored one: the writes that reach
  the platform are exactly those, in the order of the calls. Publishing the same eighteen
  values again on the store so updated writes only those that are NaN.
\<close>

theorem capability_writes_only_changes:
  assumes "info_status data = Some st" and "drvDistance (evStatus st) = avail # further"
      and "info_location data = Some loc" and "distance ev (settings s) loc = Inr km"
      and "getCarLocString ev loc = Inr locString" and "info_odometer data = Some odo"
  shows "filter is_write (snd (handleInfo ev data s))
       = map (\<lambda>w. SetCapabilityValue (fst w) (snd w))
           (filter (needs_write (capabilities s))
              (derived_capabilities ev (settings s) (liveData s) st avail loc odo locString km))
     \<and> filter is_write
         (snd (handleInfo ev data (s\<lparr>capabilities := fst (handleInfo ev data s)\<rparr>)))
       = map (\<lambda>w. SetCapabilityValue (fst w) (snd w))
           (filter (\<lambda>w. hasCapability (capabilities s) (fst w) \<and> snd w = JNaN)
              (derived_capabilities ev (settings s) (liveData s) st avail loc odo locString km))
     \<and> derived_capabilities ev (settings s) (liveData s) st avail loc odo locString km
       = [(''measure_battery.EV'', JNum (batteryStatus (evStatus st))),
          (''measure_battery.12V'', JNum (batSoc st)),
          (''alarm_battery'',
             JBool (batSoc st \<le> batteryAlarmLevel (settings s)
                    \<or> batteryStatus (evStatus st) \<le> EVbatteryAlarmLevel (settings s))),
          (''alarm_tire_pressure'', JBool (tirePressureLampAll st \<noteq> 0)),
          (''locked'', JBool (doorLock st)),
          (''closed_locked'', JBool (closedLocked st)),
          (''target_temperature'', getTempFromCode ev (airTemp st)),
          (''defrost'', JBool (defrost st)),
          (''climate_control'', JBool (airCtrlOn st)),
          (''engine'', JBool (engine st)),
          (''charging'', JBool (batteryCharge (evStatus st))),
          (''charger'', JStr (toString (batteryPlugin (evStatus st)))),
          (''odometer'', JNum (odo_value odo)),
          (''range'', JNum avail),
          (''speed'', JNum (speed loc)),
          (''location'', JStr locString),
          (''distance'', km),
          (''live_data'', JBool (liveData s))]"
proof -
  define ws where "ws = derived_capabilities ev (settings s) (liveData s) st avail loc odo locString km"
  have d: "distinct (map fst ws)"
    by (simp add: ws_def derived_distinct)
  have first: "handleInfo ev data s =
     (fst (setCapabilities ws (capabilities s)),
      GeoLookup loc # snd (setCapabilities ws (capabilities s)) @ triggers_of st (capabilities s))"
    using handleInfo_published [OF assms] by (simp add: ws_def)
  have a: "filter is_write (snd (handleInfo ev data s))
       = map (\<lambda>w. SetCapabilityValue (fst w) (snd w)) (filter (needs_write (capabilities s)) ws)"
    by (simp add: first writes_all_write triggers_of_no_write setCapabilities_events [OF d])
  define s' where "s' = s\<lparr>capabilities := fst (setCapabilities ws (capabilities s))\<rparr>"
  have hyp4: "distance ev (settings s') loc = Inr km"
    using assms(4) by (simp add: s'_def)
  have second: "handleInfo ev data s' =
     (fst (setCapabilities ws (capabilities s')),
      GeoLookup loc # snd (setCapabilities ws (capabilities s')) @ triggers_of st (capabilities s'))"
    using handleInfo_published [OF assms(1-3) hyp4 assms(5,6)] by (simp add: ws_def s'_def)
  have "filter is_write (snd (handleInfo ev data s'))
      = map (\<lambda>w. SetCapabilityValue (fst w) (snd w)) (filter (needs_write (capabilities s')) ws)"
    by (simp add: second writes_all_write triggers_of_no_write setCapabilities_events [OF d])
  also have "\<dots> = map (\<lambda>w. SetCapabilityValue (fst w) (snd w))
      (filter (\<lambda>w. hasCapability (capabilities s) (fst w) \<and> snd w = JNaN) ws)"
    using setCapabilities_settled [OF d, of "capabilities s"] by (simp add: s'_def)
  finally have b: "filter is_write (snd (handleInfo ev data s'))
      = map (\<lambda>w. SetCapabilityValue (fst w) (snd w))
          (filter (\<lambda>w. hasCapability (capabilities s) (fst w) \<and> snd w = JNaN) ws)" .
  have c: "handleInfo ev data (s\<lparr>capabilities := fst (handleInfo ev data s)\<rparr>)
      = handleInfo ev data s'"
    by (simp add: s'_def first)
  show ?thesis
    unfolding c using a b derived_capabilities_list [of ev "settings s" "liveData s"]
    by (simp add: ws_def)
qed

text \<open>
  A first publication of the parked car writes fourteen of the eighteen values (the four
  monitored booleans are stored already); a second one writes nothing.
\<close>

theorem capability_writes_only_changes_witness:
  "filter is_write (snd (handleInfo env_ok info0 (dev0\<lparr>capabilities := caps_parked\<rparr>)))
     = [SetCapabilityValue ''measure_battery.EV'' (JNum 72),
        SetCapabilityValue ''measure_battery.12V'' (JNum 85),
        SetCapabilityValue ''alarm_battery'' (JBool False),
        SetCapabilityValue ''alarm_tire_pressure'' (JBool False),
        SetCapabilityValue ''locked'' (JBool True),
        SetCapabilityValue ''closed_locked'' (JBool True),
        SetCapabilityValue ''target_temperature'' (JNum 20),
        SetCapabilityValue ''charger'' (JStr ''0''),
        SetCapabilityValue ''odometer'' (JNum 171),
        SetCapabilityValue ''range'' (JNum 334),
        SetCapabilityValue ''speed'' (JNum 0),
        SetCapabilityValue ''location'' (JStr ''Utrecht''),
        SetCapabilityValue ''distance'' (JNum 0),
        SetCapabilityValue ''live_data'' (JBool False)]
   \<and> filter is_write
        (snd (handleInfo env_ok info0
               (dev0\<lparr>capabilities :=
                       fst (handleInfo env_ok info0 (dev0\<lparr>capabilities := caps_parked\<rparr>))\<rparr>)))
     = []"
proof -
  have ws: "filter (needs_write caps_parked)
        (derived_capabilities env_ok cfg0 False st_parked 334 loc0 odo0 ''Utrecht'' (JNum 0))
      = [(''measure_battery.EV'', JNum 72), (''measure_battery.12V'', JNum 85),
         (''alarm_battery'', JBool False), (''alarm_tire_pressure'', JBool False),
         (''locked'', JBool True), (''closed_locked'', JBool True),
         (''target_temperature'', JNum 20), (''charger'', JStr ''0''),
         (''odometer'', JNum 171), (''range'', JNum 334), (''speed'', JNum 0),
         (''location'', JStr ''Utrecht''), (''distance'', JNum 0),
         (''live_data'', JBool False)]"
    by (simp add: derived_capabilities_def needs_write_def model_defs run_defs Let_def)
  have nan: "filter (\<lambda>w. hasCapability caps_parked (fst w) \<and> snd w = JNaN)
        (derived_capabilities env_ok cfg0 False st_parked 334 loc0 odo0 ''Utrecht'' (JNum 0))
      = []"
    by (simp add: derived_capabilities_def model_defs run_defs Let_def)
  have hyps: "info_status info0 = Some st_parked" "drvDistance (evStatus st_parked) = [334]"
      "info_location info0 = Some loc0"
      "distance env_ok (settings (dev0\<lparr>capabilities := caps_parked\<rparr>)) loc0 = Inr (JNum 0)"
      "getCarLocString env_ok loc0 = Inr ''Utrecht''" "info_odometer info0 = Some odo0"
    by (simp_all add: info0_def st_parked_def env_ok_def distance_def)
  have fields: "settings (dev0\<lparr>capabilities := caps_parked\<rparr>) = cfg0"
      "liveData (dev0\<lparr>capabilities := caps_parked\<rparr>) = False"
      "capabilities (dev0\<lparr>capabilities := caps_parked\<rparr>) = caps_parked"
    by (simp_all add: dev0_def)
  show ?thesis
    using capability_writes_only_changes [OF hyps]
    by (simp add: fields ws nan)
qed

text \<open>
  C7, as the claim states it, fails: in the second of two forced polls with the same
  answers the publication is reached (the reverse geocoder is called) and
  \<^verbatim>\<open>setCapabilityValue\<close> is not called once.
\<close>

theorem unchanged_snapshot_writes_nothing:
  "snd (doPoll env_ok True (fst (doPoll env_ok True dev0)))
     = [Login, StatusCall True, LocationCall, OdometerCall, GeoLookup loc0]"
  by (simp add: model_defs run_defs Let_def)

section \<open>The refresh decisions\<close>

lemma busy_irrelevant [simp]:
  "forceRefresh ev force (s\<lparr>busy := b\<rparr>) = forceRefresh ev force s"
  "sleepModeChecked status (s\<lparr>busy := b\<rparr>) = sleepModeChecked status s"
  "batSoCGood status (s\<lparr>busy := b\<rparr>) = batSoCGood status s"
  "carJustActive ev (s\<lparr>busy := b\<rparr>) = carJustActive ev s"
  by (simp_all add: forceRefresh_def sleepModeChecked_def batSoCGood_def carJustActive_def
      split: option.splits)

lemma forceRefresh_words:
  "forceRefresh ev force s =
     (force
      \<or> (pollIntervalForced (settings s) \<noteq> 0
         \<and> (\<exists>t. lastRefresh s = Some t
               \<and> pollIntervalForced (settings s) * 60 * 1000 < now_interval ev - t))
      \<or> lastStatus s = None \<or> lastLocation s = None \<or> lastOdometer s = None)"
  by (auto simp: forceRefresh_def split: option.splits)

lemma cached_fetch_skipped:
  assumes "0 < watchDogCounter s" and "\<not> busy s" and "login ev = None"
      and "vehicle s \<noteq> None" and "doPoll ev force s = (s', tr)"
  shows "(StatusCall False \<notin> set tr) = forceRefresh ev force s"
  using assms
  by (auto simp: poll_defs Let_def
      dest!: poll_publish_frame split: if_splits option.splits sum.splits)

lemma sleepModeChecked_forced: "\<exists>b. sleepModeChecked (lastStatus s) s = Inr b"
  by (auto simp: sleepModeChecked_def split: option.splits)

lemma liveData_decided:
  assumes "0 < watchDogCounter s" and "\<not> busy s" and "login ev = None"
      and "vehicle s \<noteq> None" and "doPoll ev force s = (s', tr)"
      and "forceRefresh ev force s \<or> status_cached ev = Inr st"
  shows "liveData s' =
     (forceRefresh ev force s
      \<or> (batteryAlarmLevel (settings s) < batSoc st
         \<and> (engine st \<or> airCtrlOn st \<or> defrost st \<or> sleepModeCheck st
            \<or> Some (time st) \<noteq> map_option time (lastStatus s)
            \<or> (\<exists>t. carLastActive s = Some t \<and> now_active ev - t < 5 * 60 * 1000))))
     \<and> (StatusCall True \<in> set tr) = liveData s'"
proof (cases "forceRefresh ev force s")
  case True
  obtain b where "sleepModeChecked (lastStatus s) s = Inr b"
    using sleepModeChecked_forced by blast
  with True assms(1-5) show ?thesis
    by (auto simp: poll_defs Let_def
      dest!: poll_publish_frame split: if_splits option.splits sum.splits)
next
  case False
  with assms(6) have c: "status_cached ev = Inr st" by simp
  from False obtain l where l: "lastStatus s = Some l"
    by (auto simp: forceRefresh_def)
  have sc: "sleepModeChecked (Some st) s = Inr (sleepModeCheck st \<or> time st \<noteq> time l)"
    by (simp add: sleepModeChecked_def l)
  have j: "carJustActive ev s = (\<exists>t. carLastActive s = Some t \<and> now_active ev - t < 5 * 60 * 1000)"
    by (auto simp: carJustActive_def split: option.splits)
  from False c l sc assms(1-5) show ?thesis
    unfolding j [symmetric]
    by (auto simp: poll_defs Let_def carActive_def batSoCGood_def
      dest!: poll_publish_frame split: if_splits option.splits sum.splits)
qed


lemma handleInfo_reads:
  assumes "settings t = settings s" and "liveData t = liveData s"
      and "capabilities t = capabilities s"
  shows "handleInfo ev data t = handleInfo ev data s"
  using assms
  by (auto simp: handleInfo_def publish_def Let_def
      split: option.splits list.splits sum.splits prod.splits)

lemma poll_publish_trace:
  assumes "poll_publish ev a ns st loc odo s tr = (s', tr')" and "\<not> liveData s"
  shows "tr' = tr
       @ snd (handleInfo ev \<lparr>info_status = st, info_location = loc, info_odometer = odo\<rparr> s)
     \<and> capabilities s'
       = fst (handleInfo ev \<lparr>info_status = st, info_location = loc, info_odometer = odo\<rparr> s)"
proof -
  define s1 where "s1 = s\<lparr>lastRefresh := (if ns then Some (now_refresh ev) else lastRefresh s)\<rparr>"
  define s2 where "s2 = s1\<lparr>carLastActive := (if a then lastRefresh s1 else carLastActive s1)\<rparr>"
  define data where "data = \<lparr>info_status = st, info_location = loc, info_odometer = odo\<rparr>"
  have same: "handleInfo ev data s2 = handleInfo ev data s"
    by (rule handleInfo_reads) (simp_all add: s2_def s1_def)
  have quiet: "\<not> liveData s2"
    using assms(2) by (simp add: s2_def s1_def)
  have "tr' = tr @ snd (handleInfo ev data s2) \<and> capabilities s' = fst (handleInfo ev data s2)"
    using assms(1) quiet
    unfolding poll_publish_def Let_def s1_def [symmetric] s2_def [symmetric] data_def [symmetric]
    by (auto simp: resume_caller_Nil split: prod.splits)
  then show ?thesis
    by (simp add: same [unfolded data_def] data_def)
qed

lemma poll_publish_stamps:
  assumes "poll_publish ev a ns st loc odo s tr = (s', tr')"
  shows "lastRefresh s' = (if ns then Some (now_refresh ev) else lastRefresh s)
     \<and> carLastActive s'
       = (if a then (if ns then Some (now_refresh ev) else lastRefresh s) else carLastActive s)
     \<and> liveData s' = liveData s
     \<and> (\<exists>x. PollError x \<in> set tr') = (\<exists>x. PollError x \<in> set tr)"
proof -
  define s1 where "s1 = s\<lparr>lastRefresh := (if ns then Some (now_refresh ev) else lastRefresh s)\<rparr>"
  define s2 where "s2 = s1\<lparr>carLastActive := (if a then lastRefresh s1 else carLastActive s1)\<rparr>"
  have "\<exists>cs. s' = s2\<lparr>capabilities := cs, watchDogCounter := 5, busy := False\<rparr>"
    using assms
    unfolding poll_publish_def Let_def s1_def [symmetric] s2_def [symmetric]
    by (auto split: prod.splits)
  then obtain cs where "s' = s2\<lparr>capabilities := cs, watchDogCounter := 5, busy := False\<rparr>"
    by blast
  then have "lastRefresh s' = (if ns then Some (now_refresh ev) else lastRefresh s)
     \<and> carLastActive s'
       = (if a then (if ns then Some (now_refresh ev) else lastRefresh s) else carLastActive s)"
    by (simp add: s2_def s1_def)
  then show ?thesis
    using poll_publish_frame [OF assms] by simp
qed

lemma activity_stamped:
  assumes "0 < watchDogCounter s" and "\<not> busy s" and "login ev = None"
      and "vehicle s \<noteq> None" and "doPoll ev force s = (s', tr)"
      and "forceRefresh ev force s \<or> status_cached ev = Inr st"
  shows "((\<forall>e. PollError e \<notin> set tr) \<longrightarrow>
            lastRefresh s' = (if liveData s' then Some (now_refresh ev) else lastRefresh s)
            \<and> carLastActive s'
              = (if (if forceRefresh ev force s
                     then (case lastStatus s of
                             None \<Rightarrow> False
                           | Some l \<Rightarrow> engine l \<or> airCtrlOn l \<or> defrost l \<or> sleepModeCheck l)
                     else engine st \<or> airCtrlOn st \<or> defrost st \<or> sleepModeCheck st
                          \<or> Some (time st) \<noteq> map_option time (lastStatus s))
                 then lastRefresh s' else carLastActive s))
     \<and> ((\<exists>e. PollError e \<in> set tr) \<longrightarrow>
            lastRefresh s' = lastRefresh s \<and> carLastActive s' = carLastActive s)"
proof (cases "forceRefresh ev force s")
  case True
  have sc: "sleepModeChecked (lastStatus s) s
      = Inr (case lastStatus s of None \<Rightarrow> False | Some l \<Rightarrow> sleepModeCheck l)"
    by (auto simp: sleepModeChecked_def split: option.splits)
  have ca: "carActive (lastStatus s) (case lastStatus s of None \<Rightarrow> False | Some l \<Rightarrow> sleepModeCheck l)
      = (case lastStatus s of
           None \<Rightarrow> False
         | Some l \<Rightarrow> engine l \<or> airCtrlOn l \<or> defrost l \<or> sleepModeCheck l)"
    by (auto simp: carActive_def split: option.splits)
  from True sc assms(1-5) show ?thesis
    unfolding ca [symmetric]
    by (auto simp: poll_defs Let_def
      dest!: poll_publish_stamps split: if_splits sum.splits)
next
  case False
  with assms(6) have c: "status_cached ev = Inr st" by simp
  from False obtain l where l: "lastStatus s = Some l"
    by (auto simp: forceRefresh_def)
  have sc: "sleepModeChecked (Some st) s = Inr (sleepModeCheck st \<or> time st \<noteq> time l)"
    by (simp add: sleepModeChecked_def l)
  have ca: "carActive (Some st) (sleepModeCheck st \<or> time st \<noteq> time l)
      = (engine st \<or> airCtrlOn st \<or> defrost st \<or> sleepModeCheck st
         \<or> Some (time st) \<noteq> map_option time (lastStatus s))"
    by (auto simp: carActive_def l)
  from False c sc assms(1-5) show ?thesis
    unfolding ca [symmetric]
    by (auto simp: poll_defs Let_def
      dest!: poll_publish_stamps split: if_splits sum.splits)
qed

lemma cached_republished:
  assumes "0 < watchDogCounter s" and "\<not> busy s" and "login ev = None"
      and "vehicle s \<noteq> None" and "doPoll ev force s = (s', tr)"
      and "status_cached ev = Inr st" and "\<not> forceRefresh ev force s"
      and "batSoc st \<le> batteryAlarmLevel (settings s)"
  shows "\<not> liveData s' \<and> StatusCall True \<notin> set tr \<and> lastStatus s' = Some st
     \<and> tr = [Login, StatusCall False]
          @ snd (handleInfo ev \<lparr>info_status = Some st, info_location = lastLocation s,
                                 info_odometer = lastOdometer s\<rparr>
                   (s\<lparr>liveData := False\<rparr>))
     \<and> capabilities s'
        = fst (handleInfo ev \<lparr>info_status = Some st, info_location = lastLocation s,
                                 info_odometer = lastOdometer s\<rparr>
                   (s\<lparr>liveData := False\<rparr>))"
proof -
  from assms(7) obtain l where l: "lastStatus s = Some l"
    by (auto simp: forceRefresh_def)
  obtain b where sc: "sleepModeChecked (Some st) s = Inr b"
    by (cases "sleepModeCheck st") (simp_all add: sleepModeChecked_def l)
  have bat: "\<not> batSoCGood (Some st) s"
    using assms(8) by (simp add: batSoCGood_def)
  define S where "S = s\<lparr>busy := True, liveData := False, lastStatus := Some st\<rparr>"
  have "doPoll ev force s
      = poll_publish ev (carActive (Some st) b) False (Some st) (lastLocation s) (lastOdometer s)
          S [Login, StatusCall False]"
    using assms(1-4,6,7) sc bat
    by (auto simp: doPoll_def poll_fetch_def poll_decide_def poll_store_def Let_def S_def)
  with assms(5) have pp: "poll_publish ev (carActive (Some st) b) False (Some st)
      (lastLocation s) (lastOdometer s) S [Login, StatusCall False] = (s', tr)"
    by simp
  have quiet: "\<not> liveData S"
    by (simp add: S_def)
  have same: "handleInfo ev \<lparr>info_status = Some st, info_location = lastLocation s,
        info_odometer = lastOdometer s\<rparr> S
      = handleInfo ev \<lparr>info_status = Some st, info_location = lastLocation s,
        info_odometer = lastOdometer s\<rparr> (s\<lparr>liveData := False\<rparr>)"
    by (rule handleInfo_reads) (simp_all add: S_def)
  have "tr = [Login, StatusCall False]
          @ snd (handleInfo ev \<lparr>info_status = Some st, info_location = lastLocation s,
                                 info_odometer = lastOdometer s\<rparr>
                   (s\<lparr>liveData := False\<rparr>))
     \<and> capabilities s'
        = fst (handleInfo ev \<lparr>info_status = Some st, info_location = lastLocation s,
                                 info_odometer = lastOdometer s\<rparr>
                   (s\<lparr>liveData := False\<rparr>))"
    using poll_publish_trace [OF pp quiet] same by simp
  moreover have "\<not> liveData s' \<and> StatusCall True \<notin> set tr \<and> lastStatus s' = Some st"
    using poll_publish_frame [OF pp] by (simp add: S_def)
  ultimately show ?thesis by simp
qed

lemma cached_published:
  assumes "0 < watchDogCounter s" and "\<not> busy s" and "login ev = None"
      and "vehicle s \<noteq> None" and "doPoll ev force s = (s', tr)"
      and "status_cached ev = Inr st" and "\<not> forceRefresh ev force s"
      and "batSoc st \<le> batteryAlarmLevel (settings s)"
      and "drvDistance (evStatus st) = avail # further"
      and "lastLocation s = Some loc" and "lastOdometer s = Some odo"
      and "distance ev (settings s) loc = Inr km" and "getCarLocString ev loc = Inr locString"
  shows "tr = [Login, StatusCall False, GeoLookup loc]
          @ map (\<lambda>w. SetCapabilityValue (fst w) (snd w))
              (filter (needs_write (capabilities s))
                 (derived_capabilities ev (settings s) False st avail loc odo locString km))
          @ triggers_of st (capabilities s)"
proof -
  define data where "data = \<lparr>info_status = Some st, info_location = lastLocation s,
     info_odometer = lastOdometer s\<rparr>"
  have hyps: "info_status data = Some st" "info_location data = Some loc"
      "info_odometer data = Some odo"
      "distance ev (settings (s\<lparr>liveData := False\<rparr>)) loc = Inr km"
    using assms(10-12) by (simp_all add: data_def)
  have pub: "snd (handleInfo ev data (s\<lparr>liveData := False\<rparr>))
      = GeoLookup loc
        # snd (setCapabilities
                 (derived_capabilities ev (settings s) False st avail loc odo locString km)
                 (capabilities s))
        @ triggers_of st (capabilities s)"
    using handleInfo_published [OF hyps(1) assms(9) hyps(2,4) assms(13) hyps(3)] by simp
  have tr: "tr = [Login, StatusCall False] @ snd (handleInfo ev data (s\<lparr>liveData := False\<rparr>))"
    using cached_republished [OF assms(1-8)] by (simp add: data_def)
  show ?thesis
    by (simp add: tr pub setCapabilities_events [OF derived_distinct])
qed

text \<open>
  C5. In every poll cycle that gets past login, \<open>forceRefresh\<close> is true exactly when the
  caller forced the poll, or a forced-poll interval is configured (non-zero) and more
  milliseconds than that interval (in minutes) have passed since the last refresh
  timestamp, or no status, no location or no odometer is stored; and the cached status
  fetch (\<^verbatim>\<open>refresh: false\<close>) is skipped exactly when \<open>forceRefresh\<close> is true.
\<close>

theorem forceRefresh_rule:
  assumes "0 < watchDogCounter s" and "\<not> busy s" and "login ev = None"
      and "vehicle s \<noteq> None" and "doPoll ev force s = (s', tr)"
  shows "forceRefresh ev force s =
       (force
        \<or> (pollIntervalForced (settings s) \<noteq> 0
           \<and> (\<exists>t. lastRefresh s = Some t
                 \<and> pollIntervalForced (settings s) * 60 * 1000 < now_interval ev - t))
        \<or> lastStatus s = None \<or> lastLocation s = None \<or> lastOdometer s = None)
     \<and> (StatusCall False \<notin> set tr) = forceRefresh ev force s"
  using forceRefresh_words [of ev force s] cached_fetch_skipped [OF assms]
  by blast

theorem forceRefresh_rule_witness:
  "\<not> forceRefresh env_ok False dev_known
   \<and> StatusCall False \<in> set (snd (doPoll env_ok False dev_known))
   \<and> forceRefresh env_ok True dev_known
   \<and> StatusCall False \<notin> set (snd (doPoll env_ok True dev_known))
   \<and> forceRefresh env_ok False dev0
   \<and> StatusCall False \<notin> set (snd (doPoll env_ok False dev0))"
proof -
  have start: "0 < watchDogCounter dev_known" "\<not> busy dev_known" "vehicle dev_known \<noteq> None"
      "0 < watchDogCounter dev0" "\<not> busy dev0" "vehicle dev0 \<noteq> None" "login env_ok = None"
    by (simp_all add: dev_known_def dev0_def env_ok_def)
  have f: "\<not> forceRefresh env_ok False dev_known" "forceRefresh env_ok True dev_known"
      "forceRefresh env_ok False dev0"
    by (simp_all add: forceRefresh_def dev_known_def dev0_def cfg0_def)
  have pair: "doPoll ev force s = (fst (doPoll ev force s), snd (doPoll ev force s))"
    for ev force s by simp
  show ?thesis
    using forceRefresh_rule [OF start(1,2,7,3) pair [of env_ok False dev_known]]
      forceRefresh_rule [OF start(1,2,7,3) pair [of env_ok True dev_known]]
      forceRefresh_rule [OF start(4,5,7,6) pair [of env_ok False dev0]] f
    by blast
qed

text \<open>
  C4, as the code has it. In every poll cycle that reaches the decision (login succeeded,
  and either a refresh is forced or the cached status \<open>st\<close> was fetched),
  \<^verbatim>\<open>this.liveData\<close> is \<open>forceRefresh\<close> or (the 12V state of charge is strictly above the
  alarm level and (the car is active: engine, climate, defrost, sleep-mode check or a
  changed status time; or the time in \<^verbatim>\<open>carLastActive\<close> is less than five minutes old)); the
  full refresh is issued exactly when \<^verbatim>\<open>liveData\<close> is true. \<^verbatim>\<open>carLastActive\<close> is not the
  time at which activity was seen: a cycle that completes and finds the car active in the
  status it decides on sets it to \<^verbatim>\<open>lastRefresh\<close>, which is the time of that cycle only if
  the cycle made a full refresh. With the battery at or below the alarm level and no
  forced refresh, \<^verbatim>\<open>liveData\<close> is false, no full refresh is issued, the cached status is
  stored, and \<^verbatim>\<open>handleInfo\<close> publishes it with the stored location and odometer: the
  reverse geocoder is called, then the derived values that differ from the stored
  capabilities are written, then the flow triggers are fired.
\<close>

theorem liveData_rule:
  assumes "0 < watchDogCounter s" and "\<not> busy s" and "login ev = None"
      and "vehicle s \<noteq> None" and "doPoll ev force s = (s', tr)"
      and "forceRefresh ev force s \<or> status_cached ev = Inr st"
  shows "liveData s' =
       (forceRefresh ev force s
        \<or> (batteryAlarmLevel (settings s) < batSoc st
           \<and> (engine st \<or> airCtrlOn st \<or> defrost st \<or> sleepModeCheck st
              \<or> Some (time st) \<noteq> map_option time (lastStatus s)
              \<or> (\<exists>t. carLastActive s = Some t \<and> now_active ev - t < 5 * 60 * 1000))))
     \<and> (StatusCall True \<in> set tr) = liveData s'
     \<and> ((\<forall>e. PollError e \<notin> set tr) \<longrightarrow>
            lastRefresh s' = (if liveData s' then Some (now_refresh ev) else lastRefresh s)
            \<and> carLastActive s'
              = (if (if forceRefresh ev force s
                     then (case lastStatus s of
                             None \<Rightarrow> False
                           | Some l \<Rightarrow> engine l \<or> airCtrlOn l \<or> defrost l \<or> sleepModeCheck l)
                     else engine st \<or> airCtrlOn st \<or> defrost st \<or> sleepModeCheck st
                          \<or> Some (time st) \<noteq> map_option time (lastStatus s))
                 then lastRefresh s' else carLastActive s))
     \<and> ((\<exists>e. PollError e \<in> set tr) \<longrightarrow>
            lastRefresh s' = lastRefresh s \<and> carLastActive s' = carLastActive s)
     \<and> (\<not> forceRefresh ev force s \<and> batSoc st \<le> batteryAlarmLevel (settings s) \<longrightarrow>
          \<not> liveData s' \<and> StatusCall True \<notin> set tr \<and> lastStatus s' = Some st)
     \<and> (\<not> forceRefresh ev force s \<and> batSoc st \<le> batteryAlarmLevel (settings s)
          \<and> drvDistance (evStatus st) = avail # further
          \<and> lastLocation s = Some loc \<and> lastOdometer s = Some odo
          \<and> distance ev (settings s) loc = Inr km \<and> getCarLocString ev loc = Inr locString \<longrightarrow>
          tr = [Login, StatusCall False, GeoLookup loc]
               @ map (\<lambda>w. SetCapabilityValue (fst w) (snd w))
                   (filter (needs_write (capabilities s))
                      [(''measure_battery.EV'', JNum (batteryStatus (evStatus st))),
                       (''measure_battery.12V'', JNum (batSoc st)),
                       (''alarm_battery'',
                          JBool (batSoc st \<le> batteryAlarmLevel (settings s)
                                 \<or> batteryStatus (evStatus st) \<le> EVbatteryAlarmLevel (settings s))),
                       (''alarm_tire_pressure'', JBool (tirePressureLampAll st \<noteq> 0)),
                       (''locked'', JBool (doorLock st)),
                       (''closed_locked'', JBool (closedLocked st)),
                       (''target_temperature'', getTempFromCode ev (airTemp st)),
                       (''defrost'', JBool (defrost st)),
                       (''climate_control'', JBool (airCtrlOn st)),
                       (''engine'', JBool (engine st)),
                       (''charging'', JBool (batteryCharge (evStatus st))),
                       (''charger'', JStr (toString (batteryPlugin (evStatus st)))),
                       (''odometer'', JNum (odo_value odo)),
                       (''range'', JNum avail),
                       (''speed'', JNum (speed loc)),
                       (''location'', JStr locString),
                       (''distance'', km),
                       (''live_data'', JBool False)])
               @ triggers_of st (capabilities s))"
proof -
  have low: "\<not> liveData s' \<and> StatusCall True \<notin> set tr \<and> lastStatus s' = Some st"
    if nf: "\<not> forceRefresh ev force s" and alarm: "batSoc st \<le> batteryAlarmLevel (settings s)"
  proof -
    from nf assms(6) have c: "status_cached ev = Inr st" by simp
    show ?thesis
      using cached_republished [OF assms(1-5) c nf alarm] by blast
  qed
  have published: "tr = [Login, StatusCall False, GeoLookup loc]
         @ map (\<lambda>w. SetCapabilityValue (fst w) (snd w))
             (filter (needs_write (capabilities s))
                (derived_capabilities ev (settings s) False st avail loc odo locString km))
         @ triggers_of st (capabilities s)"
    if nf: "\<not> forceRefresh ev force s" and alarm: "batSoc st \<le> batteryAlarmLevel (settings s)"
      and pub: "drvDistance (evStatus st) = avail # further" "lastLocation s = Some loc"
        "lastOdometer s = Some odo" "distance ev (settings s) loc = Inr km"
        "getCarLocString ev loc = Inr locString"
  proof -
    from nf assms(6) have c: "status_cached ev = Inr st" by simp
    show ?thesis
      by (rule cached_published [OF assms(1-5) c nf alarm pub])
  qed
  show ?thesis
    using liveData_decided [OF assms] activity_stamped [OF assms] low
      published [unfolded derived_capabilities_list]
    by blast
qed

text \<open>
  With a low battery the cached status is published and no refresh is made; with a good
  battery and a changed status time the refresh is made.
\<close>

theorem liveData_rule_witness:
  "\<not> forceRefresh env_low_battery False dev_known
   \<and> status_cached env_low_battery = Inr st_low_battery
   \<and> batSoc st_low_battery \<le> batteryAlarmLevel (settings dev_known)
   \<and> \<not> liveData (fst (doPoll env_low_battery False dev_known))
   \<and> StatusCall True \<notin> set (snd (doPoll env_low_battery False dev_known))
   \<and> lastStatus (fst (doPoll env_low_battery False dev_known)) = Some st_low_battery
   \<and> snd (doPoll env_low_battery False dev_known)
       = [Login, StatusCall False, GeoLookup loc_old,
          SetCapabilityValue ''measure_battery.EV'' (JNum 72),
          SetCapabilityValue ''measure_battery.12V'' (JNum 40),
          SetCapabilityValue ''alarm_battery'' (JBool True),
          SetCapabilityValue ''alarm_tire_pressure'' (JBool False),
          SetCapabilityValue ''locked'' (JBool True),
          SetCapabilityValue ''closed_locked'' (JBool True),
          SetCapabilityValue ''target_temperature'' (JNum 20),
          SetCapabilityValue ''defrost'' (JBool False),
          SetCapabilityValue ''climate_control'' (JBool False),
          SetCapabilityValue ''engine'' (JBool False),
          SetCapabilityValue ''charging'' (JBool False),
          SetCapabilityValue ''charger'' (JStr ''0''),
          SetCapabilityValue ''odometer'' (JNum 150),
          SetCapabilityValue ''range'' (JNum 334),
          SetCapabilityValue ''speed'' (JNum 30),
          SetCapabilityValue ''location'' (JStr ''Utrecht''),
          SetCapabilityValue ''distance'' (JNum 0),
          SetCapabilityValue ''live_data'' (JBool False),
          TriggerCard ''engine_false'', TriggerCard ''charging_false'',
          TriggerCard ''climate_control_false'', TriggerCard ''defrost_false'']
   \<and> liveData (fst (doPoll env_ok False dev_known))
   \<and> StatusCall True \<in> set (snd (doPoll env_ok False dev_known))"
proof -
  have start: "0 < watchDogCounter dev_known" "\<not> busy dev_known" "vehicle dev_known \<noteq> None"
      "login env_low_battery = None" "login env_ok = None"
    by (simp_all add: dev_known_def dev0_def env_ok_def env_low_battery_def)
  have c: "status_cached env_low_battery = Inr st_low_battery"
      "status_cached env_ok = Inr st_parked"
    by (simp_all add: env_low_battery_def env_ok_def)
  have nf: "\<not> forceRefresh env_low_battery False dev_known"
      "\<not> forceRefresh env_ok False dev_known"
    by (simp_all add: forceRefresh_def dev_known_def dev0_def cfg0_def)
  have low: "batSoc st_low_battery \<le> batteryAlarmLevel (settings dev_known)"
    by (simp add: st_low_battery_def st_parked_def dev_known_def dev0_def cfg0_def)
  have good: "batteryAlarmLevel (settings dev_known) < batSoc st_parked"
      "Some (time st_parked) \<noteq> map_option time (lastStatus dev_known)"
    by (simp_all add: st_parked_def st_engine_on_def dev_known_def dev0_def cfg0_def)
  have pub: "drvDistance (evStatus st_low_battery) = [334]"
      "lastLocation dev_known = Some loc_old" "lastOdometer dev_known = Some odo_old"
      "distance env_low_battery (settings dev_known) loc_old = Inr (JNum 0)"
      "getCarLocString env_low_battery loc_old = Inr ''Utrecht''"
    by (simp_all add: st_low_battery_def st_parked_def dev_known_def dev0_def distance_def
        env_low_battery_def env_ok_def)
  have pair: "doPoll ev force s = (fst (doPoll ev force s), snd (doPoll ev force s))"
    for ev force s by simp
  note cycle = liveData_rule [OF start(1,2,4,3) pair [of env_low_battery False dev_known],
      where st = st_low_battery and avail = 334 and further = "[]" and loc = loc_old
        and odo = odo_old and km = "JNum 0" and locString = "''Utrecht''"]
  from cycle c(1) nf(1) low
  have quiet: "\<not> liveData (fst (doPoll env_low_battery False dev_known))
      \<and> StatusCall True \<notin> set (snd (doPoll env_low_battery False dev_known))
      \<and> lastStatus (fst (doPoll env_low_battery False dev_known)) = Some st_low_battery"
    by blast
  from cycle c(1) nf(1) low pub
  have "snd (doPoll env_low_battery False dev_known)
      = [Login, StatusCall False, GeoLookup loc_old]
               @ map (\<lambda>w. SetCapabilityValue (fst w) (snd w))
                   (filter (needs_write (capabilities dev_known))
                      [(''measure_battery.EV'', JNum (batteryStatus (evStatus st_low_battery))),
                       (''measure_battery.12V'', JNum (batSoc st_low_battery)),
                       (''alarm_battery'',
                          JBool (batSoc st_low_battery \<le> batteryAlarmLevel (settings dev_known)
                                 \<or> batteryStatus (evStatus st_low_battery)
                                    \<le> EVbatteryAlarmLevel (settings dev_known))),
                       (''alarm_tire_pressure'', JBool (tirePressureLampAll st_low_battery \<noteq> 0)),
                       (''locked'', JBool (doorLock st_low_battery)),
                       (''closed_locked'', JBool (closedLocked st_low_battery)),
                       (''target_temperature'', getTempFromCode env_low_battery (airTemp st_low_battery)),
                       (''defrost'', JBool (defrost st_low_battery)),
                       (''climate_control'', JBool (airCtrlOn st_low_battery)),
                       (''engine'', JBool (engine st_low_battery)),
                       (''charging'', JBool (batteryCharge (evStatus st_low_battery))),
                       (''charger'', JStr (toString (batteryPlugin (evStatus st_low_battery)))),
                       (''odometer'', JNum (odo_value odo_old)),
                       (''range'', JNum 334),
                       (''speed'', JNum (speed loc_old)),
                       (''location'', JStr ''Utrecht''),
                       (''distance'', JNum 0),
                       (''live_data'', JBool False)])
               @ triggers_of st_low_battery (capabilities dev_known)"
    by blast
  then have trace: "snd (doPoll env_low_battery False dev_known)
       = [Login, StatusCall False, GeoLookup loc_old,
          SetCapabilityValue ''measure_battery.EV'' (JNum 72),
          SetCapabilityValue ''measure_battery.12V'' (JNum 40),
          SetCapabilityValue ''alarm_battery'' (JBool True),
          SetCapabilityValue ''alarm_tire_pressure'' (JBool False),
          SetCapabilityValue ''locked'' (JBool True),
          SetCapabilityValue ''closed_locked'' (JBool True),
          SetCapabilityValue ''target_temperature'' (JNum 20),
          SetCapabilityValue ''defrost'' (JBool False),
          SetCapabilityValue ''climate_control'' (JBool False),
          SetCapabilityValue ''engine'' (JBool False),
          SetCapabilityValue ''charging'' (JBool False),
          SetCapabilityValue ''charger'' (JStr ''0''),
          SetCapabilityValue ''odometer'' (JNum 150),
          SetCapabilityValue ''range'' (JNum 334),
          SetCapabilityValue ''speed'' (JNum 30),
          SetCapabilityValue ''location'' (JStr ''Utrecht''),
          SetCapabilityValue ''distance'' (JNum 0),
          SetCapabilityValue ''live_data'' (JBool False),
          TriggerCard ''engine_false'', TriggerCard ''charging_false'',
          TriggerCard ''climate_control_false'', TriggerCard ''defrost_false'']"
    by (simp add: needs_write_def triggers_of_def changed_def model_defs run_defs)
  from liveData_rule [OF start(1,2,5,3) pair [of env_ok False dev_known], where st = st_parked]
    c(2) good
  have live: "liveData (fst (doPoll env_ok False dev_known))
      \<and> StatusCall True \<in> set (snd (doPoll env_ok False dev_known))"
    by blast
  show ?thesis
    using nf(1) c(1) low quiet trace live by simp
qed

text \<open>
  C4, as the claim states it, fails. A cycle with the battery below the alarm level sees
  the engine running in the cached status, makes no refresh and stamps \<^verbatim>\<open>carLastActive\<close>
  with the refresh time of a quarter of an hour before. One minute later the battery is
  above the alarm level, nothing is forced and the car shows no activity: activity was
  observed one minute ago, and \<^verbatim>\<open>liveData\<close> is false and no full refresh is made.
\<close>

theorem liveData_ignores_recent_activity:
  "status_cached env_running_low = Inr st_running_low
   \<and> engine st_running_low
   \<and> now_active env_running_low = 1000000
   \<and> carLastActive (fst (doPoll env_running_low False dev_long_parked)) = Some 100000
   \<and> now_active env_minute_later = 1060000
   \<and> status_cached env_minute_later = Inr st_parked
   \<and> batteryAlarmLevel (settings (fst (doPoll env_running_low False dev_long_parked)))
       < batSoc st_parked
   \<and> \<not> forceRefresh env_minute_later False (fst (doPoll env_running_low False dev_long_parked))
   \<and> \<not> liveData (fst (doPoll env_minute_later False
                          (fst (doPoll env_running_low False dev_long_parked))))
   \<and> StatusCall True \<notin> set (snd (doPoll env_minute_later False
                                     (fst (doPoll env_running_low False dev_long_parked))))"
  by (simp add: model_defs run_defs Let_def)

end
